theory Spec2Isabelle
  imports Main
begin

section \<open>JavaScript values and strings\<close>

text \<open>
  A JavaScript string is a sequence of code units; here it is a \<open>string\<close>, one
  \<open>char\<close> for each code unit, so \<open>length\<close> is the source's \<open>.length\<close> and
  \<open>take n\<close> is \<open>substring(0, n)\<close>. Code units beyond the 8-bit range are not
  represented. A value read from JSON is a \<open>js_value\<close>, its numbers the integers;
  an object is the list of its keys with their values, in the order of the keys.
\<close>

datatype js_value =
    JNull
  | JBool bool
  | JNum int
  | JStr string
  | JArr "js_value list"
  | JObj "(string \<times> js_value) list"

type_synonym js_object = "(string \<times> js_value) list"

text \<open>A thrown value: the \<open>name\<close> and \<open>message\<close> of the error object.\<close>

datatype js_thrown = Thrown string string

text \<open>
  \<open>{...a, ...b}\<close>: the keys of \<open>a\<close> in their order, overwritten in place by those of
  \<open>b\<close>, followed by the keys only \<open>b\<close> has.
\<close>

fun obj_set :: "string \<Rightarrow> js_value \<Rightarrow> js_object \<Rightarrow> js_object" where
  "obj_set k v [] = [(k, v)]"
| "obj_set k v ((k', v') # kvs) =
     (if k' = k then (k, v) # kvs else (k', v') # obj_set k v kvs)"

fun spread :: "js_object \<Rightarrow> js_object \<Rightarrow> js_object" where
  "spread a [] = a"
| "spread a ((k, v) # kvs) = spread (obj_set k v a) kvs"

text \<open>
  White space as \<open>String.prototype.trim\<close> and the regular expression class \<open>\s\<close>
  see it (tab, line feed, vertical tab, form feed, carriage return, space and
  no-break space, among the code units represented here).
\<close>

definition is_space :: "char \<Rightarrow> bool" where
  "is_space c \<longleftrightarrow> c \<in> {CHR 0x09, CHR 0x0A, CHR 0x0B, CHR 0x0C, CHR 0x0D, CHR 0x20, CHR 0xA0}"

text \<open>The class \<open>\w\<close>: ASCII letters, digits and the underscore.\<close>

definition is_word :: "char \<Rightarrow> bool" where
  "is_word c \<longleftrightarrow>
     (let n = (of_char c :: nat)
      in (65 \<le> n \<and> n \<le> 90) \<or> (97 \<le> n \<and> n \<le> 122) \<or> (48 \<le> n \<and> n \<le> 57) \<or> n = 95)"

definition trim :: "string \<Rightarrow> string" where
  "trim s = rev (dropWhile is_space (rev (dropWhile is_space s)))"

definition startsWith :: "string \<Rightarrow> string \<Rightarrow> bool" where
  "startsWith s p \<longleftrightarrow> take (length p) s = p"

text \<open>
  \<open>s.split('\n')\<close>: the pieces between line feeds; a string without a line feed
  (the empty one too) gives one piece.
\<close>

fun split_acc :: "string \<Rightarrow> string \<Rightarrow> string list" where
  "split_acc cur [] = [rev cur]"
| "split_acc cur (c # cs) =
     (if c = CHR 0x0A then rev cur # split_acc [] cs else split_acc (c # cur) cs)"

definition split_lines :: "string \<Rightarrow> string list" where
  "split_lines s = split_acc [] s"

text \<open>Decimal rendering of a non-negative integer, as a template literal prints it.\<close>

definition digit_char :: "nat \<Rightarrow> char" where
  "digit_char d = char_of (48 + d)"

fun string_of_nat :: "nat \<Rightarrow> string" where
  "string_of_nat n =
     (if n < 10 then [digit_char n] else string_of_nat (n div 10) @ [digit_char (n mod 10)])"

declare string_of_nat.simps [simp del]


section \<open>The notice normalizer (notice.ts)\<close>

record js_error =
  err_name :: string
  err_message :: string
  err_stack :: "string option"

record Notice =
  errorClass :: string
  message :: string
  backtrace :: "string list"
  fingerprint :: "string option"
  tags :: "string list"
  ctx :: js_object
  request :: js_object
  user :: js_object
  notice_environment :: "string option"
  occurredAt :: string

text \<open>
  The options of the two constructors; the fields are those of the source, prefixed
  with \<open>opt_\<close> (the notice's \<open>context\<close> is the field \<open>ctx\<close>, its \<open>environment\<close> the field
  \<open>notice_environment\<close>).
\<close>

record NoticeOptions =
  opt_context :: "js_object option"
  opt_request :: "js_object option"
  opt_user :: "js_object option"
  opt_fingerprint :: "string option"
  opt_tags :: "string list option"
  opt_environment :: "string option"

definition MAX_BACKTRACE_LINES :: nat where
  "MAX_BACKTRACE_LINES = 100"

definition MAX_MESSAGE_LENGTH :: nat where
  "MAX_MESSAGE_LENGTH = 10000"

text \<open>
  \<open>truncateMessage\<close>: the empty message is falsy and gives the empty string; a
  message within the limit is returned as it is; a longer one keeps its first
  \<open>MAX_MESSAGE_LENGTH - 3\<close> code units, followed by three dots.
\<close>

definition truncateMessage :: "string \<Rightarrow> string" where
  "truncateMessage m =
     (if m = [] then []
      else if length m \<le> MAX_MESSAGE_LENGTH then m
      else take (MAX_MESSAGE_LENGTH - 3) m @ ''...'')"

text \<open>
  The three tests of the frame filter, each applied to the trimmed line:
  \<open>startsWith('at ')\<close>, \<open>/^\s*\w+@/\<close> and \<open>/^\s*@/\<close>. Neither \<open>\s\<close> nor \<open>@\<close> is
  in \<open>\w\<close>, and \<open>@\<close> is not in \<open>\s\<close>, so the greedy match is the only one.
\<close>

definition re_word_at :: "string \<Rightarrow> bool" where
  "re_word_at s =
     (let r = dropWhile is_space s
      in takeWhile is_word r \<noteq> [] \<and> startsWith (dropWhile is_word r) ''@'')"

definition re_at :: "string \<Rightarrow> bool" where
  "re_at s = startsWith (dropWhile is_space s) ''@''"

definition is_frame :: "string \<Rightarrow> bool" where
  "is_frame line =
     (let trimmed = trim line
      in startsWith trimmed ''at '' \<or> re_word_at trimmed \<or> re_at trimmed)"

text \<open>\<open>Boolean\<close> on a string: only the empty string is falsy.\<close>

definition truthy :: "string \<Rightarrow> bool" where
  "truthy s \<longleftrightarrow> s \<noteq> []"

text \<open>
  \<open>parseBacktrace\<close>: a missing or empty stack is falsy. The frames are filtered
  first, then trimmed, then cut at \<open>MAX_BACKTRACE_LINES\<close>; when none is left, the
  raw lines are cut at \<open>MAX_BACKTRACE_LINES\<close> first, then trimmed, then the empty
  ones are dropped.
\<close>

definition parseBacktrace :: "string option \<Rightarrow> string list" where
  "parseBacktrace stk =
     (case stk of
        None \<Rightarrow> []
      | Some s \<Rightarrow>
          if s = [] then []
          else
            let lines = split_lines s;
                frames = take MAX_BACKTRACE_LINES (map trim (filter is_frame lines))
            in if length frames = 0
               then filter truthy (map trim (take MAX_BACKTRACE_LINES lines))
               else frames)"

text \<open>
  \<open>or_default\<close> is \<open>x || d\<close> on strings (the empty string is falsy) and
  \<open>nullish\<close> is \<open>x ?? d\<close>.
\<close>

definition or_default :: "string \<Rightarrow> string \<Rightarrow> string" where
  "or_default x d = (if x = [] then d else x)"

definition nullish :: "'a option \<Rightarrow> 'a \<Rightarrow> 'a" where
  "nullish x d = (case x of None \<Rightarrow> d | Some v \<Rightarrow> v)"

text \<open>The timestamp \<open>new Date().toISOString()\<close> is the parameter \<open>now\<close>.\<close>

definition createNotice :: "string \<Rightarrow> js_error \<Rightarrow> NoticeOptions \<Rightarrow> Notice" where
  "createNotice now error options =
     \<lparr> errorClass = or_default (err_name error) ''Error'',
       message = truncateMessage (or_default (err_message error) ''Unknown error''),
       backtrace = parseBacktrace (err_stack error),
       fingerprint = opt_fingerprint options,
       tags = nullish (opt_tags options) [],
       ctx = nullish (opt_context options) [],
       request = nullish (opt_request options) [],
       user = nullish (opt_user options) [],
       notice_environment = opt_environment options,
       occurredAt = now \<rparr>"

text \<open>
  \<open>createNoticeFromRaw\<close>: with an error object its stack and name are used; the
  location frame is synthesized only without an error object and with a non-empty
  source.
\<close>

definition createNoticeFromRaw ::
  "string \<Rightarrow> string \<Rightarrow> string option \<Rightarrow> nat option \<Rightarrow> nat option \<Rightarrow> js_error option
     \<Rightarrow> NoticeOptions \<Rightarrow> Notice" where
  "createNoticeFromRaw now rawmsg source lineno colno error options =
     (let (bt, cls) =
            (case error of
               Some e \<Rightarrow> (parseBacktrace (err_stack e), or_default (err_name e) ''Error'')
             | None \<Rightarrow>
                 (case source of
                    Some src \<Rightarrow>
                      if src \<noteq> []
                      then ([src @ '':'' @ string_of_nat (nullish lineno 0) @ '':'' @
                               string_of_nat (nullish colno 0)], ''Error'')
                      else ([], ''Error'')
                  | None \<Rightarrow> ([], ''Error'')))
      in \<lparr> errorClass = cls,
           message = truncateMessage rawmsg,
           backtrace = bt,
           fingerprint = opt_fingerprint options,
           tags = nullish (opt_tags options) [],
           ctx = nullish (opt_context options) [],
           request = nullish (opt_request options) [],
           user = nullish (opt_user options) [],
           notice_environment = opt_environment options,
           occurredAt = now \<rparr>)"


text \<open>
  The fallback as the specification words it: all non-empty trimmed lines, up to
  the cap of 100 (the cap counted on the lines that are kept).
\<close>

definition parseBacktrace_spec :: "string option \<Rightarrow> string list" where
  "parseBacktrace_spec stk =
     (case stk of
        None \<Rightarrow> []
      | Some s \<Rightarrow>
          let lines = split_lines s;
              frames = take 100 (map trim (filter is_frame lines))
          in if frames = []
             then take 100 (filter truthy (map trim lines))
             else frames)"

text \<open>The call without options, \<open>options = {}\<close>.\<close>

definition no_options :: NoticeOptions where
  "no_options =
     \<lparr> opt_context = None, opt_request = None, opt_user = None,
       opt_fingerprint = None, opt_tags = None, opt_environment = None \<rparr>"

text \<open>Sample inputs: a trace with two frames, and an empty line followed by 100 lines of text.\<close>

definition trace_sample :: string where
  "trace_sample =
     ''Error: x'' @ [CHR 0x0A] @ ''    at foo (a.js:1:2)'' @ [CHR 0x0A] @ ''  bar@b.js:3''"

definition padded_sample :: string where
  "padded_sample = concat (replicate 100 (CHR 0x0A # ''x''))"


section \<open>The configuration (configuration.ts)\<close>

text \<open>
  An entry of the ignore-list is a string or a regular expression. A regular
  expression is the predicate its \<open>test\<close> method computes; \<open>POther\<close> stands for
  an entry that is neither, which the source's last branch answers with \<open>false\<close>.
\<close>

datatype pattern = PString string | PRegExp "string \<Rightarrow> bool" | POther

text \<open>
  A pre-send callback receives the notice, may change it in place, and returns
  \<open>false\<close>, \<open>true\<close> or nothing, or throws; a thrown value is kept as the text
  that a template literal prints for it.
\<close>

datatype cb_result = Returned "bool option" | Threw string

type_synonym BeforeNotifyCallback = "Notice \<Rightarrow> cb_result \<times> Notice"

definition DEFAULT_ENDPOINT :: string where
  "DEFAULT_ENDPOINT = ''https://app.checkend.io''"

definition DEFAULT_FILTER_KEYS :: "string list" where
  "DEFAULT_FILTER_KEYS =
     [''password'', ''password_confirmation'', ''passwd'', ''secret'', ''token'',
      ''api_key'', ''apiKey'', ''access_token'', ''accessToken'', ''refresh_token'',
      ''refreshToken'', ''authorization'', ''bearer'', ''credit_card'', ''creditCard'',
      ''card_number'', ''cardNumber'', ''cvv'', ''cvc'', ''ssn'']"

text \<open>
  \<open>/^Script error\.?$/\<close> has no flag, so \<open>^\<close> and \<open>$\<close> are the two ends of the
  input: it accepts \<open>Script error\<close> with or without one final dot, nothing else.
\<close>

definition script_error_re :: "string \<Rightarrow> bool" where
  "script_error_re s \<longleftrightarrow> s = ''Script error'' \<or> s = ''Script error.''"

definition DEFAULT_IGNORED_EXCEPTIONS :: "pattern list" where
  "DEFAULT_IGNORED_EXCEPTIONS =
     [PString ''ResizeObserver loop limit exceeded'',
      PString ''ResizeObserver loop completed with undelivered notifications'',
      PRegExp script_error_re]"

record ConfigOptions =
  co_apiKey :: string
  co_endpoint :: "string option"
  co_environment :: "string option"
  co_enabled :: "bool option"
  co_timeout :: "nat option"
  co_ignoredExceptions :: "pattern list option"
  co_filterKeys :: "string list option"
  co_beforeNotify :: "BeforeNotifyCallback list option"
  co_debug :: "bool option"
  co_captureUnhandled :: "bool option"
  co_captureUnhandledRejections :: "bool option"
  co_maxQueueSize :: "nat option"
  co_useSendBeacon :: "bool option"

text \<open>
  The fields of the class; \<open>private_enabled\<close> is the private \<open>_enabled\<close>. The
  timeout and the queue capacity are counts.
\<close>

record Configuration =
  apiKey :: string
  endpoint :: string
  environment :: string
  private_enabled :: "bool option"
  timeout :: nat
  ignoredExceptions :: "pattern list"
  filterKeys :: "string list"
  beforeNotify :: "BeforeNotifyCallback list"
  debug :: bool
  captureUnhandled :: bool
  captureUnhandledRejections :: bool
  maxQueueSize :: nat
  useSendBeacon :: bool

text \<open>\<open>s.includes(p)\<close>: \<open>p\<close> occurs in \<open>s\<close>.\<close>

fun str_includes :: "string \<Rightarrow> string \<Rightarrow> bool" where
  "str_includes [] p = (p = [])"
| "str_includes (c # cs) p = (startsWith (c # cs) p \<or> str_includes cs p)"

text \<open>
  \<open>detectEnvironment\<close>: the argument is \<open>None\<close> without a \<open>window\<close>, else the
  host name \<open>window.location?.hostname ?? ''\<close>.
\<close>

definition detectEnvironment :: "string option \<Rightarrow> string" where
  "detectEnvironment window =
     (case window of
        Some hostname \<Rightarrow>
          if hostname = ''localhost'' \<or> hostname = ''127.0.0.1'' then ''development''
          else if str_includes hostname ''staging'' \<or> str_includes hostname ''stage'' then ''staging''
          else ''production''
      | None \<Rightarrow> ''production'')"

text \<open>The constructor.\<close>

definition new_Configuration :: "string option \<Rightarrow> ConfigOptions \<Rightarrow> Configuration" where
  "new_Configuration window options =
     \<lparr> apiKey = co_apiKey options,
       endpoint = nullish (co_endpoint options) DEFAULT_ENDPOINT,
       environment = nullish (co_environment options) (detectEnvironment window),
       private_enabled = co_enabled options,
       timeout = nullish (co_timeout options) 15000,
       ignoredExceptions =
         DEFAULT_IGNORED_EXCEPTIONS @ nullish (co_ignoredExceptions options) [],
       filterKeys = DEFAULT_FILTER_KEYS @ nullish (co_filterKeys options) [],
       beforeNotify = nullish (co_beforeNotify options) [],
       debug = nullish (co_debug options) False,
       captureUnhandled = nullish (co_captureUnhandled options) True,
       captureUnhandledRejections = nullish (co_captureUnhandledRejections options) True,
       maxQueueSize = nullish (co_maxQueueSize options) 100,
       useSendBeacon = nullish (co_useSendBeacon options) True \<rparr>"

definition isValid :: "Configuration \<Rightarrow> bool" where
  "isValid c \<longleftrightarrow> apiKey c \<noteq> [] \<and> endpoint c \<noteq> []"

definition isProductionOrStaging :: "Configuration \<Rightarrow> bool" where
  "isProductionOrStaging c \<longleftrightarrow> environment c \<in> set [''production'', ''staging'']"

text \<open>The getter \<open>enabled\<close> and the setter \<open>enabled = value\<close>.\<close>

definition enabled :: "Configuration \<Rightarrow> bool" where
  "enabled c = (case private_enabled c of Some b \<Rightarrow> b | None \<Rightarrow> isProductionOrStaging c)"

definition set_enabled :: "bool \<Rightarrow> Configuration \<Rightarrow> Configuration" where
  "set_enabled v c = c\<lparr>private_enabled := Some v\<rparr>"

fun pattern_matches :: "string \<Rightarrow> string \<Rightarrow> pattern \<Rightarrow> bool" where
  "pattern_matches cls m (PString p) = (cls = p \<or> m = p)"
| "pattern_matches cls m (PRegExp test) = (test cls \<or> test m)"
| "pattern_matches cls m POther = False"

definition shouldIgnore :: "Configuration \<Rightarrow> string \<Rightarrow> string \<Rightarrow> bool" where
  "shouldIgnore c cls m = list_ex (pattern_matches cls m) (ignoredExceptions c)"

definition ingestUrl :: "Configuration \<Rightarrow> string" where
  "ingestUrl c = endpoint c @ ''/ingest/v1/errors''"

text \<open>The options that give only the key, \<open>{ apiKey: k }\<close>.\<close>

definition key_only :: "string \<Rightarrow> ConfigOptions" where
  "key_only k =
     \<lparr> co_apiKey = k, co_endpoint = None, co_environment = None, co_enabled = None,
       co_timeout = None, co_ignoredExceptions = None, co_filterKeys = None,
       co_beforeNotify = None, co_debug = None, co_captureUnhandled = None,
       co_captureUnhandledRejections = None, co_maxQueueSize = None,
       co_useSendBeacon = None \<rparr>"


section \<open>The payload encoder and the client (notice.ts, client.ts)\<close>

record Notifier =
  notifier_name :: string
  notifier_version :: string
  language :: string
  language_version :: string

record ErrorPayload =
  ep_class :: string
  ep_message :: string
  ep_backtrace :: "string list"
  ep_occurred_at :: string
  ep_fingerprint :: "string option"
  ep_tags :: "string list option"

record NoticePayload =
  p_error :: ErrorPayload
  p_context :: js_object
  p_request :: js_object
  p_user :: js_object
  p_notifier :: Notifier

datatype beacon_result = BeaconReturns bool | BeaconThrows js_thrown

text \<open>
  What the module reads from outside itself. \<open>VERSION\<close> is the constant of the
  version module and \<open>SanitizeFilter\<close> the \<open>sanitize\<close> method of a filter built
  from a key list; both live in files that are not modelled here and are parameters.
  The rest is the browser: the host name of the window (\<open>None\<close> without a
  window), the value of \<open>captureRequestInfo()\<close>, the clock, the stack a new
  \<open>Error\<close> carries, the result of \<open>getJsVersion()\<close>, \<open>encodeURIComponent\<close>, and
  \<open>navigator.sendBeacon\<close> when the navigator has one.
\<close>

record env =
  VERSION :: string
  SanitizeFilter :: "string list \<Rightarrow> js_object \<Rightarrow> js_object"
  window_hostname :: "string option"
  captureRequestInfo :: js_object
  clock :: string
  new_Error_stack :: "string option"
  getJsVersion :: string
  encodeURIComponent :: "string \<Rightarrow> string"
  navigator_sendBeacon :: "(string \<Rightarrow> NoticePayload \<Rightarrow> beacon_result) option"

definition toPayload :: "env \<Rightarrow> Notice \<Rightarrow> NoticePayload" where
  "toPayload e notice =
     \<lparr> p_error =
         \<lparr> ep_class = errorClass notice,
           ep_message = message notice,
           ep_backtrace = backtrace notice,
           ep_occurred_at = occurredAt notice,
           ep_fingerprint = fingerprint notice,
           ep_tags = (if length (tags notice) > 0 then Some (tags notice) else None) \<rparr>,
       p_context =
         spread (ctx notice)
           (case notice_environment notice of
              Some v \<Rightarrow> if v \<noteq> [] then [(''environment'', JStr v)] else []
            | None \<Rightarrow> []),
       p_request = request notice,
       p_user = user notice,
       p_notifier =
         \<lparr> notifier_name = ''@checkend/browser'',
           notifier_version = VERSION e,
           language = ''javascript'',
           language_version = getJsVersion e \<rparr> \<rparr>"

text \<open>
  The confirmable transport answers a request in one of two ways: the promise of
  \<open>fetch\<close> rejects (network error, or the abort of the timeout, whose name is
  \<open>AbortError\<close>), or it resolves with a response. Of a response the client reads
  the status and one of the two bodies, each of which may reject in its turn.
\<close>

record Response =
  status :: nat
  json :: "js_thrown + js_value"
  text_body :: "js_thrown + string"

datatype fetch_outcome = FetchRejected js_thrown | FetchResolved Response

text \<open>
  A transmission handed to a transport: the beacon with its URL, its body and what
  it returned, or the request of \<open>fetch\<close> with its URL, the value of the header
  \<open>Checkend-Ingestion-Key\<close> and its body. The body is the payload before
  \<open>JSON.stringify\<close>.
\<close>

datatype transmission =
    ViaBeacon string NoticePayload bool
  | ViaFetch string string NoticePayload

datatype console_line = ConsoleLog string | ConsoleWarn string | ConsoleError string

text \<open>
  The client: the three fields of the class, then what it has done to the world.
  \<open>inflight\<close> holds the payloads that runs of \<open>processQueue\<close> are awaiting a
  response for, one entry for each suspended run; \<open>drained\<close> the payloads that
  \<open>processQueue\<close> has handed to \<open>sendViaFetch\<close>, in order; \<open>wire\<close> every
  transmission started, in order; \<open>client_console\<close> the lines printed.
\<close>

record Client =
  client_config :: Configuration
  queue :: "NoticePayload list"
  sending :: bool
  inflight :: "NoticePayload list"
  drained :: "NoticePayload list"
  wire :: "transmission list"
  client_console :: "console_line list"

definition new_Client :: "Configuration \<Rightarrow> Client" where
  "new_Client c =
     \<lparr> client_config = c, queue = [], sending = False,
       inflight = [], drained = [], wire = [], client_console = [] \<rparr>"

text \<open>\<open>`${e}`\<close> for a thrown error object.\<close>

fun thrown_text :: "js_thrown \<Rightarrow> string" where
  "thrown_text (Thrown n m) = (if n = [] then m else if m = [] then n else n @ '': '' @ m)"

definition client_log :: "string \<Rightarrow> Client \<Rightarrow> Client" where
  "client_log m s =
     (if debug (client_config s)
      then s\<lparr>client_console := client_console s @ [ConsoleLog (''[Checkend] '' @ m)]\<rparr>
      else s)"

definition client_logWarn :: "string \<Rightarrow> console_line" where
  "client_logWarn m = ConsoleWarn (''[Checkend] '' @ m)"

definition client_logError :: "string \<Rightarrow> console_line" where
  "client_logError m = ConsoleError (''[Checkend] '' @ m)"

text \<open>
  \<open>String(v)\<close> for a value read from parsed JSON, and \<open>`${result.id}`\<close>: a
  property of \<open>null\<close> throws, a property that is not there is \<open>undefined\<close>.
\<close>

fun join_commas :: "string list \<Rightarrow> string" where
  "join_commas [] = []"
| "join_commas [x] = x"
| "join_commas (x # y # ys) = x @ '','' @ join_commas (y # ys)"

fun js_String :: "js_value \<Rightarrow> string" where
  "js_String JNull = ''null''"
| "js_String (JBool b) = (if b then ''true'' else ''false'')"
| "js_String (JNum i) = (if i < 0 then ''-'' @ string_of_nat (nat (- i)) else string_of_nat (nat i))"
| "js_String (JStr t) = t"
| "js_String (JArr vs) = join_commas (map (\<lambda>v. if v = JNull then [] else js_String v) vs)"
| "js_String (JObj kvs) = ''[object Object]''"

definition property_text :: "js_value \<Rightarrow> string \<Rightarrow> js_thrown + string" where
  "property_text v k =
     (case v of
        JNull \<Rightarrow> Inl (Thrown ''TypeError'' (''Cannot read properties of null (reading '' @ k @ '')''))
      | JObj kvs \<Rightarrow>
          (case map_of kvs k of Some w \<Rightarrow> Inr (js_String w) | None \<Rightarrow> Inr ''undefined'')
      | _ \<Rightarrow> Inr ''undefined'')"

text \<open>
  \<open>handleResponse\<close>. With status 201 the JSON body is awaited: when reading it
  rejects the function rejects, and so it does when the body is \<open>null\<close>, whose
  \<open>id\<close> the log message reads. With another status the text body is read,
  \<open>.catch(() => '')\<close> turning a failure into the empty string, one line is
  printed, and the result is \<open>null\<close>. The result is the lines printed always, the
  line printed under \<open>debug\<close>, and the settlement: \<open>Inl\<close> a rejection, \<open>Inr None\<close>
  for \<open>null\<close>, \<open>Inr (Some v)\<close> for the parsed body.
\<close>

definition handleResponse ::
  "Response \<Rightarrow> console_line list \<times> string option \<times> (js_thrown + js_value option)" where
  "handleResponse response =
     (if status response = 201 then
        (case json response of
           Inl e \<Rightarrow> ([], None, Inl e)
         | Inr result \<Rightarrow>
             (case property_text result ''id'' of
                Inl e \<Rightarrow> ([], None, Inl e)
              | Inr i \<Rightarrow>
                  (case property_text result ''problem_id'' of
                     Inl e \<Rightarrow> ([], None, Inl e)
                   | Inr pid \<Rightarrow>
                       ([], Some (''Notice sent successfully: id='' @ i @ '' problem_id='' @ pid),
                        Inr (Some result)))))
      else
        let body = (case text_body response of Inl e \<Rightarrow> [] | Inr t \<Rightarrow> t);
            st = status response
        in ([if st = 400 then client_logWarn (''Bad request: '' @ body)
             else if st = 401 then client_logError ''Authentication failed - check your API key''
             else if st = 422 then client_logWarn (''Invalid notice payload: '' @ body)
             else if st = 429 then client_logWarn ''Rate limited by server - backing off''
             else if st \<ge> 500
               then client_logError (''Server error: '' @ string_of_nat st @ '' - '' @ body)
             else client_logError (''Unexpected response: '' @ string_of_nat st @ '' - '' @ body)],
            None, Inr None))"

text \<open>The request that \<open>sendViaFetch\<close> passes to \<open>fetch\<close>.\<close>

definition fetch_request :: "Configuration \<Rightarrow> NoticePayload \<Rightarrow> transmission" where
  "fetch_request c payload = ViaFetch (ingestUrl c) (apiKey c) payload"

text \<open>
  How the promise of \<open>sendViaFetch\<close> settles once \<open>fetch\<close> has. A rejection of
  \<open>fetch\<close> is awaited inside the \<open>try\<close> block: it is caught, one line is printed
  and the result is \<open>null\<close>. The promise of \<open>handleResponse\<close> is returned from the
  \<open>try\<close> block without \<open>await\<close>, so the block has been left when that promise
  settles: its rejection is not caught and becomes the rejection of \<open>sendViaFetch\<close>.
\<close>

definition sendViaFetch_settle ::
  "fetch_outcome \<Rightarrow> console_line list \<times> string option \<times> (js_thrown + js_value option)" where
  "sendViaFetch_settle outcome =
     (case outcome of
        FetchResolved response \<Rightarrow> handleResponse response
      | FetchRejected (Thrown n m) \<Rightarrow>
          ([if n = ''AbortError'' then client_logError ''Request timeout''
            else client_logError (''Failed to send notice: '' @ thrown_text (Thrown n m))],
           None, Inr None))"

definition print_settle :: "console_line list \<times> string option \<times> 'a \<Rightarrow> Client \<Rightarrow> Client" where
  "print_settle r s =
     (let s1 = s\<lparr>client_console := client_console s @ fst r\<rparr>
      in case fst (snd r) of Some m \<Rightarrow> client_log m s1 | None \<Rightarrow> s1)"

text \<open>
  \<open>sendViaFetch\<close> in one piece, for the caller that awaits it: the request goes
  on the wire, and the promise settles as the outcome of \<open>fetch\<close> decides.
\<close>

definition sendViaFetch ::
  "Client \<Rightarrow> NoticePayload \<Rightarrow> fetch_outcome \<Rightarrow> Client \<times> (js_thrown + js_value option)" where
  "sendViaFetch s payload outcome =
     (let s1 = s\<lparr>wire := wire s @ [fetch_request (client_config s) payload]\<rparr>;
          r = sendViaFetch_settle outcome
      in (print_settle r s1, snd (snd r)))"

text \<open>
  \<open>trySendBeacon\<close>: false without \<open>navigator.sendBeacon\<close>; else the beacon is
  called with the ingest URL carrying the key as a query parameter, and its answer
  is returned; when it throws, the result is false.
\<close>

definition trySendBeacon :: "env \<Rightarrow> Client \<Rightarrow> NoticePayload \<Rightarrow> Client \<times> bool" where
  "trySendBeacon e s payload =
     (case navigator_sendBeacon e of
        None \<Rightarrow> (s, False)
      | Some sendBeacon \<Rightarrow>
          let url = ingestUrl (client_config s) @ ''?key='' @
                      encodeURIComponent e (apiKey (client_config s))
          in case sendBeacon url payload of
               BeaconReturns b \<Rightarrow> (s\<lparr>wire := wire s @ [ViaBeacon url payload b]\<rparr>, b)
             | BeaconThrows ex \<Rightarrow> (client_log (''sendBeacon failed: '' @ thrown_text ex) s, False))"

text \<open>
  \<open>sendNotice\<close>: \<open>useSendBeacon && trySendBeacon(payload)\<close> calls the beacon only
  when the option is on; when it answers true the result is \<open>null\<close>, otherwise the
  payload goes to \<open>sendViaFetch\<close>.
\<close>

definition sendNotice ::
  "env \<Rightarrow> Client \<Rightarrow> Notice \<Rightarrow> fetch_outcome \<Rightarrow> Client \<times> (js_thrown + js_value option)" where
  "sendNotice e s notice outcome =
     (let payload = toPayload e notice;
          (s1, accepted) =
            (if useSendBeacon (client_config s) then trySendBeacon e s payload else (s, False))
      in if accepted then (client_log ''Notice sent via sendBeacon'' s1, Inr None)
         else sendViaFetch s1 payload outcome)"

text \<open>
  \<open>processQueue\<close> runs in turns. The first turn, \<open>processQueue\<close> itself, is the
  call up to its first \<open>await\<close>: it returns at once when a run is active or the
  queue is empty, else it sets \<open>sending\<close> and enters the loop. A turn of the loop,
  \<open>drain_loop\<close>, shifts the head of the queue and starts \<open>sendViaFetch\<close> on it,
  where the run is suspended; with an empty queue it clears \<open>sending\<close>.
\<close>

definition drain_loop :: "Client \<Rightarrow> Client" where
  "drain_loop s =
     (case queue s of
        [] \<Rightarrow> s\<lparr>sending := False\<rparr>
      | payload # rest \<Rightarrow>
          s\<lparr> queue := rest,
            inflight := inflight s @ [payload],
            drained := drained s @ [payload],
            wire := wire s @ [fetch_request (client_config s) payload] \<rparr>)"

definition processQueue :: "Client \<Rightarrow> Client" where
  "processQueue s =
     (if sending s \<or> length (queue s) = 0 then s else drain_loop (s\<lparr>sending := True\<rparr>))"

text \<open>
  The turn that resumes the run awaiting the \<open>k\<close>-th request in flight, when
  \<open>fetch\<close> has settled with \<open>outcome\<close>: when \<open>sendViaFetch\<close> rejects, the
  \<open>await\<close> throws and the run ends there, \<open>sending\<close> still set; otherwise the
  loop goes on.
\<close>

definition resume :: "nat \<Rightarrow> fetch_outcome \<Rightarrow> Client \<Rightarrow> Client" where
  "resume k outcome s =
     (if k < length (inflight s) then
        let r = sendViaFetch_settle outcome;
            s1 = print_settle r (s\<lparr>inflight := take k (inflight s) @ drop (Suc k) (inflight s)\<rparr>)
        in case snd (snd r) of Inl ex \<Rightarrow> s1 | Inr v \<Rightarrow> drain_loop s1
      else s)"

text \<open>
  \<open>queueNotice\<close>: a full queue drops the notice and answers false; else the
  payload is pushed, \<open>processQueue\<close> is called without being awaited, and the
  answer is true.
\<close>

definition queueNotice :: "env \<Rightarrow> Client \<Rightarrow> Notice \<Rightarrow> Client \<times> bool" where
  "queueNotice e s notice =
     (if length (queue s) \<ge> maxQueueSize (client_config s)
      then (client_log ''Queue full, dropping notice'' s, False)
      else (processQueue (s\<lparr>queue := queue s @ [toPayload e notice]\<rparr>), True))"

text \<open>
  What can happen to a client, one turn at a time: a notice is queued, a notice is
  sent directly, \<open>flush\<close> calls \<open>processQueue\<close> (once for each round of its
  loop), or a request in flight settles.
\<close>

datatype event =
    QueueNotice Notice
  | SendNotice Notice fetch_outcome
  | Flush
  | Settle nat fetch_outcome

fun step :: "env \<Rightarrow> Client \<Rightarrow> event \<Rightarrow> Client" where
  "step e s (QueueNotice notice) = fst (queueNotice e s notice)"
| "step e s (SendNotice notice outcome) = fst (sendNotice e s notice outcome)"
| "step e s Flush = processQueue s"
| "step e s (Settle k outcome) = resume k outcome s"

definition run :: "env \<Rightarrow> Client \<Rightarrow> event list \<Rightarrow> Client" where
  "run e s evs = foldl (step e) s evs"

text \<open>The payloads of the notices that \<open>queueNotice\<close> accepts along a run, in order.\<close>

fun accepted :: "env \<Rightarrow> Client \<Rightarrow> event list \<Rightarrow> NoticePayload list" where
  "accepted e s [] = []"
| "accepted e s (ev # evs) =
     (case ev of
        QueueNotice notice \<Rightarrow>
          (if snd (queueNotice e s notice) then [toPayload e notice] else [])
      | _ \<Rightarrow> []) @ accepted e (step e s ev) evs"


section \<open>The orchestrator (index.ts)\<close>

record NotifyOptions =
  nopt_context :: "js_object option"
  nopt_request :: "js_object option"
  nopt_user :: "js_object option"
  nopt_fingerprint :: "string option"
  nopt_tags :: "string list option"

text \<open>
  The state of the module: its global variables, and the lines its own \<open>log\<close>
  and \<open>logWarn\<close> print. The installation of the two window handlers by \<open>start\<close>
  and \<open>stop\<close> is not part of the model; the handlers themselves are
  \<open>handleUnhandledError\<close> and \<open>handleUnhandledRejection\<close> below.
\<close>

record sdk =
  config :: "Configuration option"
  client :: "Client option"
  sanitizeFilter :: "(js_object \<Rightarrow> js_object) option"
  started :: bool
  globalContext :: js_object
  globalUser :: js_object
  console :: "console_line list"

definition initial_sdk :: sdk where
  "initial_sdk =
     \<lparr> config = None, client = None, sanitizeFilter = None, started = False,
       globalContext = [], globalUser = [], console = [] \<rparr>"

definition log :: "string \<Rightarrow> sdk \<Rightarrow> sdk" where
  "log m s =
     (case config s of
        Some c \<Rightarrow>
          if debug c then s\<lparr>console := console s @ [ConsoleLog (''[Checkend] '' @ m)]\<rparr> else s
      | None \<Rightarrow> s)"

definition logWarn :: "string \<Rightarrow> console_line" where
  "logWarn m = ConsoleWarn (''[Checkend] '' @ m)"

definition start :: "sdk \<Rightarrow> sdk" where
  "start s =
     (case config s of
        None \<Rightarrow> s
      | Some c \<Rightarrow>
          if started s then s
          else log (''Started (environment: '' @ environment c @ '')'') (s\<lparr>started := True\<rparr>))"

definition configure :: "env \<Rightarrow> ConfigOptions \<Rightarrow> sdk \<Rightarrow> sdk" where
  "configure e options s =
     (let c = new_Configuration (window_hostname e) options
      in if \<not> isValid c
         then s\<lparr> config := Some c,
                console := console s @
                  [ConsoleWarn ''[Checkend] Invalid configuration: apiKey is required''] \<rparr>
         else start (s\<lparr> config := Some c,
                       client := Some (new_Client c),
                       sanitizeFilter := Some (SanitizeFilter e (filterKeys c)) \<rparr>))"

definition stop :: "sdk \<Rightarrow> sdk" where
  "stop s = (if \<not> started s then s else log ''Stopped'' (s\<lparr>started := False\<rparr>))"

definition reset :: "sdk \<Rightarrow> sdk" where
  "reset s =
     (stop s)\<lparr> config := None, client := None, sanitizeFilter := None,
               globalContext := [], globalUser := [] \<rparr>"

definition setContext :: "js_object \<Rightarrow> sdk \<Rightarrow> sdk" where
  "setContext c s = s\<lparr>globalContext := spread (globalContext s) c\<rparr>"

definition setUser :: "js_object \<Rightarrow> sdk \<Rightarrow> sdk" where
  "setUser u s = s\<lparr>globalUser := spread (globalUser s) u\<rparr>"

definition shouldNotify :: "sdk \<Rightarrow> bool" where
  "shouldNotify s =
     (case (config s, client s) of
        (Some c, Some cl) \<Rightarrow>
          if \<not> started s then False
          else if \<not> isValid c then False
          else if \<not> enabled c then False
          else True
      | _ \<Rightarrow> False)"

text \<open>
  The loop of \<open>runBeforeNotifyCallbacks\<close>. Each callback is called on the notice
  as the callbacks before it left it. The result is the answer, the notice after
  the calls, the lines printed, and the results of the calls that were made, in
  order.
\<close>

fun run_callbacks ::
  "bool \<Rightarrow> BeforeNotifyCallback list \<Rightarrow> Notice
     \<Rightarrow> bool \<times> Notice \<times> console_line list \<times> cb_result list" where
  "run_callbacks dbg [] notice = (True, notice, [], [])"
| "run_callbacks dbg (callback # rest) notice =
     (case callback notice of
        (Returned (Some False), notice') \<Rightarrow>
          (False, notice',
           (if dbg then [ConsoleLog ''[Checkend] Notice blocked by beforeNotify callback'']
            else []),
           [Returned (Some False)])
      | (Returned r, notice') \<Rightarrow>
          (case run_callbacks dbg rest notice' of
             (ok, final, lines, calls) \<Rightarrow> (ok, final, lines, Returned r # calls))
      | (Threw ex, notice') \<Rightarrow>
          (case run_callbacks dbg rest notice' of
             (ok, final, lines, calls) \<Rightarrow>
               (ok, final,
                logWarn (''beforeNotify callback failed: '' @ ex) # lines,
                Threw ex # calls)))"

definition runBeforeNotifyCallbacks ::
  "sdk \<Rightarrow> Notice \<Rightarrow> bool \<times> Notice \<times> console_line list \<times> cb_result list" where
  "runBeforeNotifyCallbacks s notice =
     (case config s of
        None \<Rightarrow> (True, notice, [], [])
      | Some c \<Rightarrow> run_callbacks (debug c) (beforeNotify c) notice)"

definition sanitize :: "sdk \<Rightarrow> js_object \<Rightarrow> js_object" where
  "sanitize s data = (case sanitizeFilter s of None \<Rightarrow> data | Some f \<Rightarrow> f data)"

text \<open>
  The tail shared by the three entry points that queue: the callbacks run, their
  lines are printed, and unless one of them vetoes the notice goes to
  \<open>queueNotice\<close>.
\<close>

definition callbacks_then_queue :: "env \<Rightarrow> sdk \<Rightarrow> Client \<Rightarrow> Notice \<Rightarrow> sdk" where
  "callbacks_then_queue e s cl notice =
     (case runBeforeNotifyCallbacks s notice of
        (ok, final, lines, calls) \<Rightarrow>
          let s1 = s\<lparr>console := console s @ lines\<rparr>
          in if \<not> ok then s1 else s1\<lparr>client := Some (fst (queueNotice e cl final))\<rparr>)"

definition notify :: "env \<Rightarrow> sdk \<Rightarrow> js_error \<Rightarrow> NotifyOptions \<Rightarrow> sdk" where
  "notify e s error options =
     (if \<not> shouldNotify s then s
      else case (config s, client s) of
        (Some c, Some cl) \<Rightarrow>
          let cls = or_default (err_name error) ''Error'';
              m = or_default (err_message error) ''Unknown error''
          in if shouldIgnore c cls m then log (''Ignoring error: '' @ cls) s
             else
               let mergedContext =
                     sanitize s (spread (globalContext s) (nullish (nopt_context options) []));
                   mergedUser =
                     sanitize s (spread (globalUser s) (nullish (nopt_user options) []));
                   req = sanitize s (nullish (nopt_request options) (captureRequestInfo e));
                   notice =
                     createNotice (clock e) error
                       \<lparr> opt_context = Some mergedContext, opt_request = Some req,
                         opt_user = Some mergedUser,
                         opt_fingerprint = nopt_fingerprint options,
                         opt_tags = nopt_tags options,
                         opt_environment = Some (environment c) \<rparr>
               in callbacks_then_queue e s cl notice
      | _ \<Rightarrow> s)"

text \<open>
  \<open>notifySync\<close>; \<open>outcome\<close> is how \<open>fetch\<close> settles, should the notice reach it.
  The result is the state and the settlement of the promise returned.
\<close>

definition notifySync ::
  "env \<Rightarrow> sdk \<Rightarrow> js_error \<Rightarrow> NotifyOptions \<Rightarrow> fetch_outcome
     \<Rightarrow> sdk \<times> (js_thrown + js_value option)" where
  "notifySync e s error options outcome =
     (if \<not> shouldNotify s then (s, Inr None)
      else case (config s, client s) of
        (Some c, Some cl) \<Rightarrow>
          let mergedContext =
                sanitize s (spread (globalContext s) (nullish (nopt_context options) []));
              mergedUser =
                sanitize s (spread (globalUser s) (nullish (nopt_user options) []));
              req = sanitize s (nullish (nopt_request options) (captureRequestInfo e));
              notice =
                createNotice (clock e) error
                  \<lparr> opt_context = Some mergedContext, opt_request = Some req,
                    opt_user = Some mergedUser,
                    opt_fingerprint = nopt_fingerprint options,
                    opt_tags = nopt_tags options,
                    opt_environment = Some (environment c) \<rparr>
          in (case runBeforeNotifyCallbacks s notice of
                (ok, final, lines, calls) \<Rightarrow>
                  let s1 = s\<lparr>console := console s @ lines\<rparr>
                  in if \<not> ok then (s1, Inr None)
                     else case sendNotice e cl final outcome of
                            (cl', r) \<Rightarrow> (s1\<lparr>client := Some cl'\<rparr>, r))
      | _ \<Rightarrow> (s, Inr None))"

definition handleUnhandledError ::
  "env \<Rightarrow> sdk \<Rightarrow> string \<Rightarrow> string option \<Rightarrow> nat option \<Rightarrow> nat option \<Rightarrow> js_error option
     \<Rightarrow> sdk" where
  "handleUnhandledError e s m source lineno colno error =
     (if \<not> shouldNotify s then s
      else case (config s, client s) of
        (Some c, Some cl) \<Rightarrow>
          if shouldIgnore c (case error of Some er \<Rightarrow> err_name er | None \<Rightarrow> ''Error'') m
          then s
          else
            let req = sanitize s (captureRequestInfo e);
                context = sanitize s (spread (globalContext s) [(''unhandled'', JBool True)]);
                usr = sanitize s (globalUser s);
                notice =
                  createNoticeFromRaw (clock e) m source lineno colno error
                    \<lparr> opt_context = Some context, opt_request = Some req,
                      opt_user = Some usr, opt_fingerprint = None,
                      opt_tags = Some [''unhandled''],
                      opt_environment = Some (environment c) \<rparr>
            in callbacks_then_queue e s cl notice
      | _ \<Rightarrow> s)"

text \<open>
  The reason of a rejected promise: an error object, a string, or anything else.
\<close>

datatype rejection_reason = ReasonError js_error | ReasonString string | ReasonOther

definition handleUnhandledRejection :: "env \<Rightarrow> sdk \<Rightarrow> rejection_reason \<Rightarrow> sdk" where
  "handleUnhandledRejection e s reason =
     (if \<not> shouldNotify s then s
      else case (config s, client s) of
        (Some c, Some cl) \<Rightarrow>
          let error =
                (case reason of
                   ReasonError er \<Rightarrow> er
                 | ReasonString t \<Rightarrow>
                     \<lparr> err_name = ''UnhandledRejection'', err_message = t,
                       err_stack = new_Error_stack e \<rparr>
                 | ReasonOther \<Rightarrow>
                     \<lparr> err_name = ''UnhandledRejection'',
                       err_message = ''Unhandled Promise rejection'',
                       err_stack = new_Error_stack e \<rparr>)
          in if shouldIgnore c (err_name error) (err_message error) then s
             else
               let req = sanitize s (captureRequestInfo e);
                   context =
                     sanitize s (spread (globalContext s)
                       [(''unhandled'', JBool True), (''rejection'', JBool True)]);
                   usr = sanitize s (globalUser s);
                   notice =
                     createNotice (clock e) error
                       \<lparr> opt_context = Some context, opt_request = Some req,
                         opt_user = Some usr, opt_fingerprint = None,
                         opt_tags = Some [''unhandled'', ''promise-rejection''],
                         opt_environment = Some (environment c) \<rparr>
               in callbacks_then_queue e s cl notice
      | _ \<Rightarrow> s)"

text \<open>
  The results the callbacks give when each one is called in turn, none skipped;
  \<open>veto\<close> is the answer \<open>false\<close>.
\<close>

fun outcomes :: "BeforeNotifyCallback list \<Rightarrow> Notice \<Rightarrow> cb_result list" where
  "outcomes [] notice = []"
| "outcomes (callback # rest) notice =
     fst (callback notice) # outcomes rest (snd (callback notice))"

definition veto :: cb_result where
  "veto = Returned (Some False)"

definition no_notify_options :: NotifyOptions where
  "no_notify_options =
     \<lparr> nopt_context = None, nopt_request = None, nopt_user = None,
       nopt_fingerprint = None, nopt_tags = None \<rparr>"


section \<open>Observations on a run of the client\<close>

text \<open>
  \<open>is_fetch\<close> and \<open>payload_of\<close> read a transmission; \<open>only_fetch_added s s'\<close>
  says that the wire of \<open>s'\<close> is the wire of \<open>s\<close> followed by requests of
  \<open>fetch\<close> only; \<open>beacon_url\<close> is the URL \<open>trySendBeacon\<close> builds; \<open>direct\<close>
  lists the payloads of the notices sent directly along a run; \<open>drain_inv\<close> is
  the invariant of the drain.
\<close>

fun is_fetch :: "transmission \<Rightarrow> bool" where
  "is_fetch (ViaFetch url key p) = True"
| "is_fetch (ViaBeacon url p b) = False"

fun payload_of :: "transmission \<Rightarrow> NoticePayload" where
  "payload_of (ViaFetch url key p) = p"
| "payload_of (ViaBeacon url p b) = p"

definition only_fetch_added :: "Client \<Rightarrow> Client \<Rightarrow> bool" where
  "only_fetch_added s s' \<longleftrightarrow>
     take (length (wire s)) (wire s') = wire s \<and>
     list_all is_fetch (drop (length (wire s)) (wire s'))"

definition beacon_url :: "env \<Rightarrow> Client \<Rightarrow> string" where
  "beacon_url e s =
     ingestUrl (client_config s) @ ''?key='' @ encodeURIComponent e (apiKey (client_config s))"

fun direct :: "env \<Rightarrow> event list \<Rightarrow> NoticePayload list" where
  "direct e [] = []"
| "direct e (SendNotice notice outcome # evs) = toPayload e notice # direct e evs"
| "direct e (ev # evs) = direct e evs"

definition drain_inv :: "Client \<Rightarrow> bool" where
  "drain_inv s \<longleftrightarrow>
     length (inflight s) \<le> 1 \<and> (inflight s \<noteq> [] \<longrightarrow> sending s) \<and> (queue s \<noteq> [] \<longrightarrow> sending s)"


text \<open>
  \<open>warnings_of\<close> gives the warning printed for each call that threw;
  \<open>calls_made\<close> cuts a list of results after its first veto.
\<close>

fun warnings_of :: "cb_result list \<Rightarrow> console_line list" where
  "warnings_of [] = []"
| "warnings_of (Threw ex # rs) = logWarn (''beforeNotify callback failed: '' @ ex) # warnings_of rs"
| "warnings_of (Returned r # rs) = warnings_of rs"

definition calls_made :: "cb_result list \<Rightarrow> cb_result list" where
  "calls_made os = (if veto \<in> set os then takeWhile (\<lambda>r. r \<noteq> veto) os @ [veto] else os)"


section \<open>Sample inputs\<close>

definition redact :: "string list \<Rightarrow> js_object \<Rightarrow> js_object" where
  "redact keys data =
     map (\<lambda>(k, v). if k \<in> set keys then (k, JStr ''[FILTERED]'') else (k, v)) data"

text \<open>A browser whose beacon accepts whatever it is given.\<close>

definition sample_env :: env where
  "sample_env =
     \<lparr> VERSION = ''1.0.0'', SanitizeFilter = redact, window_hostname = Some ''example.com'',
       captureRequestInfo = [(''url'', JStr ''https://example.com/'')],
       clock = ''2026-01-01T00:00:00.000Z'', new_Error_stack = None,
       getJsVersion = ''unknown'', encodeURIComponent = (\<lambda>k. k),
       navigator_sendBeacon = Some (\<lambda>url payload. BeaconReturns True) \<rparr>"

definition sample_config :: Configuration where
  "sample_config = new_Configuration (Some ''example.com'') (key_only ''test-key'')"

definition sample_error :: js_error where
  "sample_error = \<lparr> err_name = ''Error'', err_message = ''boom'', err_stack = None \<rparr>"

definition sample_notice :: Notice where
  "sample_notice = createNotice ''2026-01-01T00:00:00.000Z'' sample_error no_options"

definition created_response :: Response where
  "created_response =
     \<lparr> status = 201, json = Inr (JObj [(''id'', JNum 1), (''problem_id'', JNum 2)]),
       text_body = Inr [] \<rparr>"

text \<open>A response with status 201 whose body does not parse.\<close>

definition unreadable_201 :: Response where
  "unreadable_201 =
     \<lparr> status = 201, json = Inl (Thrown ''SyntaxError'' ''Unexpected end of JSON input''),
       text_body = Inr [] \<rparr>"

text \<open>Notices that differ in their message, and a configuration with room for two.\<close>

definition notice_of :: "string \<Rightarrow> Notice" where
  "notice_of m =
     createNotice ''2026-01-01T00:00:00.000Z''
       \<lparr> err_name = ''Error'', err_message = m, err_stack = None \<rparr> no_options"

definition small_config :: Configuration where
  "small_config =
     new_Configuration (Some ''example.com'') ((key_only ''test-key'')\<lparr>co_maxQueueSize := Some 2\<rparr>)"


text \<open>Four callbacks, and the module configured with them.\<close>

definition cb_throws :: BeforeNotifyCallback where
  "cb_throws n = (Threw ''Error: broken'', n)"

definition cb_tag :: BeforeNotifyCallback where
  "cb_tag n = (Returned (Some True), n\<lparr>tags := tags n @ [''seen'']\<rparr>)"

definition cb_veto :: BeforeNotifyCallback where
  "cb_veto n = (Returned (Some False), n)"

definition cb_void :: BeforeNotifyCallback where
  "cb_void n = (Returned None, n\<lparr>tags := tags n @ [''late'']\<rparr>)"

definition hooked_sdk :: sdk where
  "hooked_sdk =
     configure sample_env
       ((key_only ''test-key'')\<lparr>co_beforeNotify := Some [cb_throws, cb_tag, cb_veto, cb_void]\<rparr>)
       initial_sdk"

text \<open>
  The module configured with the key only, in production and on \<open>localhost\<close>, and
  an error the built-in ignore-list names.
\<close>

definition configured_sdk :: sdk where
  "configured_sdk = configure sample_env (key_only ''test-key'') initial_sdk"

definition local_env :: env where
  "local_env = sample_env\<lparr>window_hostname := Some ''localhost''\<rparr>"

definition local_sdk :: sdk where
  "local_sdk = configure local_env (key_only ''test-key'') initial_sdk"

definition noisy_error :: js_error where
  "noisy_error =
     \<lparr> err_name = ''Error'', err_message = ''ResizeObserver loop limit exceeded'',
       err_stack = None \<rparr>"


text \<open>
  A browser without a beacon; the module configured there with an ignore entry of
  the user's; an error whose message the built-in pattern accepts; and the
  messages of the payloads on the wire of the module's client.
\<close>

definition plain_env :: env where
  "plain_env = sample_env\<lparr>navigator_sendBeacon := None\<rparr>"

definition custom_options :: ConfigOptions where
  "custom_options = (key_only ''test-key'')\<lparr>co_ignoredExceptions := Some [PString ''CustomError'']\<rparr>"

definition custom_sdk :: sdk where
  "custom_sdk = configure plain_env custom_options initial_sdk"

definition script_error :: js_error where
  "script_error = \<lparr> err_name = ''Error'', err_message = ''Script error.'', err_stack = None \<rparr>"

definition messages_on_wire :: "sdk \<Rightarrow> string list" where
  "messages_on_wire s =
     (case client s of
        None \<Rightarrow> []
      | Some cl \<Rightarrow> map (\<lambda>t. ep_message (p_error (payload_of t))) (wire cl))"

text \<open>
  A run in which the first request of the drain is answered with the unreadable
  201 while a second notice waits, followed by a call from \<open>flush\<close>, a third
  notice and another call from \<open>flush\<close>.
\<close>

definition stuck_run :: "event list" where
  "stuck_run =
     [QueueNotice (notice_of ''first''), QueueNotice (notice_of ''second''),
      Settle 0 (FetchResolved unreadable_201), Flush, QueueNotice (notice_of ''third''), Flush]"


section \<open>Message truncation\<close>

text \<open>
  C5. A message strictly longer than 10000 code units is normalized to exactly
  10000 code units: its first 9997, then the marker \<open>...\<close>; a message of at most
  10000 code units is returned unchanged. The notice of a raw signal carries this
  value of the raw message, the notice of an error object this value of the
  object's message, \<open>Unknown error\<close> standing in for an empty one.
\<close>

theorem truncateMessage_cap:
  "(10000 < length m \<longrightarrow>
      length (truncateMessage m) = 10000 \<and>
      drop 9997 (truncateMessage m) = ''...'' \<and>
      take 9997 (truncateMessage m) = take 9997 m) \<and>
   (length m \<le> 10000 \<longrightarrow> truncateMessage m = m) \<and>
   message (createNoticeFromRaw now m src ln cl err opts) = truncateMessage m \<and>
   message (createNotice now e opts) =
     truncateMessage (if err_message e = [] then ''Unknown error'' else err_message e)"
proof (intro conjI impI)
  assume long: "10000 < length m"
  then have ne: "m \<noteq> []" by auto
  from long ne show "length (truncateMessage m) = 10000"
    by (simp add: truncateMessage_def MAX_MESSAGE_LENGTH_def)
  from long ne show "drop 9997 (truncateMessage m) = ''...''"
    by (simp add: truncateMessage_def MAX_MESSAGE_LENGTH_def)
  from long ne show "take 9997 (truncateMessage m) = take 9997 m"
    by (simp add: truncateMessage_def MAX_MESSAGE_LENGTH_def)
next
  assume "length m \<le> 10000"
  then show "truncateMessage m = m"
    by (simp add: truncateMessage_def MAX_MESSAGE_LENGTH_def)
next
  show "message (createNoticeFromRaw now m src ln cl err opts) = truncateMessage m"
    by (simp add: createNoticeFromRaw_def Let_def split: option.split prod.split)
next
  show "message (createNotice now e opts) =
     truncateMessage (if err_message e = [] then ''Unknown error'' else err_message e)"
    by (simp add: createNotice_def or_default_def)
qed

theorem truncateMessage_cap_witness:
  "10000 < length (replicate 10001 CHR ''a'') \<and>
   length (truncateMessage (replicate 10001 CHR ''a'')) = 10000 \<and>
   drop 9997 (truncateMessage (replicate 10001 CHR ''a'')) = ''...'' \<and>
   length ''boom'' \<le> (10000::nat) \<and> truncateMessage ''boom'' = ''boom''"
  using truncateMessage_cap [of "replicate 10001 CHR ''a''"]
    truncateMessage_cap [of "''boom''"]
  by simp


section \<open>Backtrace derivation\<close>

lemma frames_empty_iff:
  "take MAX_BACKTRACE_LINES (map trim (filter is_frame ls)) = [] \<longleftrightarrow>
     (\<forall>l \<in> set ls. \<not> is_frame l)"
  by (auto simp: MAX_BACKTRACE_LINES_def filter_empty_conv)

lemma parseBacktrace_frames:
  assumes "s \<noteq> []" "\<exists>l \<in> set (split_lines s). is_frame l"
  shows "parseBacktrace (Some s) = take 100 (map trim (filter is_frame (split_lines s)))"
proof -
  from assms(2) have "take MAX_BACKTRACE_LINES (map trim (filter is_frame (split_lines s))) \<noteq> []"
    by (simp only: frames_empty_iff) blast
  with assms(1) show ?thesis
    by (simp add: parseBacktrace_def Let_def MAX_BACKTRACE_LINES_def)
qed

lemma parseBacktrace_fallback:
  assumes "s \<noteq> []" "\<forall>l \<in> set (split_lines s). \<not> is_frame l"
  shows "parseBacktrace (Some s) = filter truthy (map trim (take 100 (split_lines s)))"
proof -
  from assms(2) have "take MAX_BACKTRACE_LINES (map trim (filter is_frame (split_lines s))) = []"
    by (simp only: frames_empty_iff)
  with assms(1) show ?thesis
    by (simp add: parseBacktrace_def Let_def MAX_BACKTRACE_LINES_def)
qed

lemma parseBacktrace_length: "length (parseBacktrace stk) \<le> 100"
proof -
  have "length (filter truthy (map trim (take 100 ls))) \<le> 100" for ls :: "string list"
    by (rule order_trans [OF length_filter_le]) simp
  then show ?thesis
    by (auto simp: parseBacktrace_def Let_def MAX_BACKTRACE_LINES_def split: option.split)
qed

lemma trace_sample_frames:
  "trace_sample \<noteq> [] \<and> (\<exists>l \<in> set (split_lines trace_sample). is_frame l) \<and>
   take 100 (map trim (filter is_frame (split_lines trace_sample))) =
     [''at foo (a.js:1:2)'', ''bar@b.js:3'']"
  by code_simp

lemma plain_text_lines:
  "''plain text'' \<noteq> [] \<and> (\<forall>l \<in> set (split_lines ''plain text''). \<not> is_frame l) \<and>
   filter truthy (map trim (take 100 (split_lines ''plain text''))) = [''plain text'']"
  by code_simp

lemma split_acc_padded:
  "split_acc cur (concat (replicate n (CHR 0x0A # ''x''))) = rev cur # replicate n ''x''"
  by (induction n arbitrary: cur) simp_all

lemma split_lines_padded: "split_lines padded_sample = [] # replicate 100 ''x''"
  by (simp add: split_lines_def padded_sample_def split_acc_padded)

lemma trim_x: "trim ''x'' = ''x'' \<and> trim [] = [] \<and> \<not> is_frame ''x'' \<and> \<not> is_frame []"
  by code_simp

lemma location_sample:
  "''app.js'' \<noteq> [] \<and>
   ''app.js'' @ '':'' @ string_of_nat (nullish (Some 10) 0) @ '':'' @ string_of_nat (nullish None 0) =
     ''app.js:10:0''"
  by code_simp

text \<open>
  C8, as the claim words the fallback: when no line is a frame, the result is all
  non-empty trimmed lines up to the cap of 100. The source cuts the raw lines at
  100 before it drops the empty ones: for an empty line followed by 100 lines of
  text there are 100 non-empty trimmed lines and no frame, and the result has 99.
\<close>

theorem parseBacktrace_counterexample:
  "filter is_frame (split_lines padded_sample) = [] \<and>
   length (filter truthy (map trim (split_lines padded_sample))) = 100 \<and>
   length (parseBacktrace (Some padded_sample)) = 99 \<and>
   parseBacktrace (Some padded_sample) \<noteq> parseBacktrace_spec (Some padded_sample)"
proof -
  have ne: "padded_sample \<noteq> []"
    by (simp add: padded_sample_def)
  have a: "filter is_frame (split_lines padded_sample) = []"
    by (simp add: split_lines_padded trim_x)
  have b: "filter truthy (map trim (split_lines padded_sample)) = replicate 100 ''x''"
    by (simp add: split_lines_padded trim_x truthy_def)
  have c: "parseBacktrace (Some padded_sample) = replicate 99 ''x''"
    using ne by (simp add: parseBacktrace_def Let_def a MAX_BACKTRACE_LINES_def
        split_lines_padded trim_x truthy_def take_Cons')
  have d: "parseBacktrace_spec (Some padded_sample) = replicate 100 ''x''"
    by (simp add: parseBacktrace_spec_def Let_def a b)
  have e: "replicate 99 ''x'' \<noteq> replicate 100 ''x''"
  proof
    assume "replicate 99 ''x'' = replicate 100 ''x''"
    then have "length (replicate 99 ''x'') = length (replicate 100 ''x'')" by (rule arg_cong)
    then show False by simp
  qed
  show ?thesis by (simp add: a b c d e)
qed

text \<open>
  C8, amended. A stack trace is split into lines; when some line looks like a
  stack frame, only such lines are kept, each is trimmed, and the result is capped
  at 100 frames; when no line matches, the result is the non-empty trimmed lines
  among the first 100 lines of the trace, the cut at 100 being made on the raw
  lines before the empty ones are dropped. The result never has more than 100
  entries. The notice of an error object with a stack carries this backtrace, on
  the raw path too. Without a stack trace (missing or empty) and without a
  location the backtrace is empty; raw input with a location and no error object
  gives the single synthesized frame \<open><source>:<line>:<column>\<close>.
\<close>

theorem parseBacktrace_amended:
  "parseBacktrace None = [] \<and> parseBacktrace (Some []) = [] \<and>
   (s \<noteq> [] \<and> (\<exists>l \<in> set (split_lines s). is_frame l) \<longrightarrow>
      parseBacktrace (Some s) = take 100 (map trim (filter is_frame (split_lines s)))) \<and>
   (s \<noteq> [] \<and> (\<forall>l \<in> set (split_lines s). \<not> is_frame l) \<longrightarrow>
      parseBacktrace (Some s) = filter truthy (map trim (take 100 (split_lines s)))) \<and>
   length (parseBacktrace stk) \<le> 100 \<and>
   backtrace (createNotice now e opts) = parseBacktrace (err_stack e) \<and>
   (err_stack e = Some st \<and> st \<noteq> [] \<longrightarrow>
      backtrace (createNoticeFromRaw now m source ln cl (Some e) opts) =
        parseBacktrace (Some st)) \<and>
   ((err_stack e = None \<or> err_stack e = Some []) \<and> (source = None \<or> source = Some []) \<longrightarrow>
      backtrace (createNoticeFromRaw now m source ln cl (Some e) opts) = []) \<and>
   (src \<noteq> [] \<longrightarrow>
      backtrace (createNoticeFromRaw now m (Some src) ln cl None opts) =
        [src @ '':'' @ string_of_nat (nullish ln 0) @ '':'' @ string_of_nat (nullish cl 0)]) \<and>
   backtrace (createNoticeFromRaw now m (Some []) ln cl None opts) = [] \<and>
   backtrace (createNoticeFromRaw now m None ln cl None opts) = []"
proof (intro conjI impI)
  show "parseBacktrace None = []" by (simp add: parseBacktrace_def)
  show "parseBacktrace (Some []) = []" by (simp add: parseBacktrace_def)
  show "length (parseBacktrace stk) \<le> 100" by (rule parseBacktrace_length)
  show "backtrace (createNotice now e opts) = parseBacktrace (err_stack e)"
    by (simp add: createNotice_def)
  show "backtrace (createNoticeFromRaw now m (Some []) ln cl None opts) = []"
    by (simp add: createNoticeFromRaw_def)
  show "backtrace (createNoticeFromRaw now m None ln cl None opts) = []"
    by (simp add: createNoticeFromRaw_def)
next
  assume "err_stack e = Some st \<and> st \<noteq> []"
  then show "backtrace (createNoticeFromRaw now m source ln cl (Some e) opts) =
        parseBacktrace (Some st)"
    by (simp add: createNoticeFromRaw_def)
next
  assume "(err_stack e = None \<or> err_stack e = Some []) \<and> (source = None \<or> source = Some [])"
  then show "backtrace (createNoticeFromRaw now m source ln cl (Some e) opts) = []"
    by (auto simp: createNoticeFromRaw_def parseBacktrace_def)
next
  assume "s \<noteq> [] \<and> (\<exists>l \<in> set (split_lines s). is_frame l)"
  then show "parseBacktrace (Some s) = take 100 (map trim (filter is_frame (split_lines s)))"
    by (simp add: parseBacktrace_frames)
next
  assume "s \<noteq> [] \<and> (\<forall>l \<in> set (split_lines s). \<not> is_frame l)"
  then show "parseBacktrace (Some s) = filter truthy (map trim (take 100 (split_lines s)))"
    by (simp add: parseBacktrace_fallback)
next
  assume "src \<noteq> []"
  then show "backtrace (createNoticeFromRaw now m (Some src) ln cl None opts) =
        [src @ '':'' @ string_of_nat (nullish ln 0) @ '':'' @ string_of_nat (nullish cl 0)]"
    by (simp add: createNoticeFromRaw_def)
qed

theorem parseBacktrace_amended_witness:
  "parseBacktrace (Some trace_sample) = [''at foo (a.js:1:2)'', ''bar@b.js:3''] \<and>
   parseBacktrace (Some ''plain text'') = [''plain text''] \<and>
   backtrace (createNoticeFromRaw ''t'' ''boom'' (Some ''app.js'') (Some 10) None None no_options) =
     [''app.js:10:0''] \<and>
   backtrace (createNoticeFromRaw ''t'' ''boom'' (Some ''app.js'') (Some 10) None
      (Some \<lparr> err_name = ''Error'', err_message = ''boom'', err_stack = Some ''plain text'' \<rparr>)
      no_options) = [''plain text''] \<and>
   backtrace (createNoticeFromRaw ''t'' ''boom'' None None None (Some sample_error) no_options) = []"
  using parseBacktrace_amended [where s = trace_sample and src = "''app.js''"]
    parseBacktrace_amended
      [where s = "''plain text''" and now = "''t''" and m = "''boom''" and ln = "Some 10"
         and cl = None and src = "''app.js''" and opts = no_options and st = "''plain text''"
         and source = "Some ''app.js''"
         and e = "\<lparr> err_name = ''Error'', err_message = ''boom'', err_stack = Some ''plain text'' \<rparr>"]
    parseBacktrace_amended
      [where now = "''t''" and m = "''boom''" and ln = None and cl = None and opts = no_options
         and source = None and e = sample_error]
    trace_sample_frames plain_text_lines location_sample
  by (simp add: sample_error_def)

text \<open>
  The raw path looks at the location only when no error object is given: of an
  error object that has no stack, together with a location, the backtrace is
  empty.
\<close>

lemma raw_error_without_stack:
  "backtrace (createNoticeFromRaw ''t'' ''boom'' (Some ''app.js'') (Some 10) (Some 2)
      (Some sample_error) no_options) = []"
  by (simp add: createNoticeFromRaw_def sample_error_def parseBacktrace_def)


section \<open>Built-in defaults of the configuration\<close>

lemma shouldIgnore_default:
  assumes "list_ex (pattern_matches cls m) DEFAULT_IGNORED_EXCEPTIONS"
  shows "shouldIgnore (new_Configuration window options) cls m"
  using assms by (simp add: shouldIgnore_def new_Configuration_def)

text \<open>
  Every constructed configuration has the built-in ignore entries followed by the
  user's, and the built-in sensitive keys followed by the user's. Whatever the
  options are, \<open>shouldIgnore\<close> answers true for an error whose message is
  \<open>ResizeObserver loop limit exceeded\<close> or \<open>ResizeObserver loop completed with
  undelivered notifications\<close> or is accepted by \<open>/^Script error\.?$/\<close>, and
  \<open>password\<close>, \<open>token\<close> and \<open>authorization\<close> are among the filter keys.
\<close>

lemma defaults_prepended:
  "ignoredExceptions (new_Configuration window options) =
     DEFAULT_IGNORED_EXCEPTIONS @ nullish (co_ignoredExceptions options) [] \<and>
   filterKeys (new_Configuration window options) =
     DEFAULT_FILTER_KEYS @ nullish (co_filterKeys options) [] \<and>
   (m = ''ResizeObserver loop limit exceeded'' \<or>
    m = ''ResizeObserver loop completed with undelivered notifications'' \<or>
    m = ''Script error'' \<or> m = ''Script error.'' \<longrightarrow>
      shouldIgnore (new_Configuration window options) cls m) \<and>
   ''password'' \<in> set (filterKeys (new_Configuration window options)) \<and>
   ''token'' \<in> set (filterKeys (new_Configuration window options)) \<and>
   ''authorization'' \<in> set (filterKeys (new_Configuration window options))"
proof (intro conjI impI)
  show "ignoredExceptions (new_Configuration window options) =
          DEFAULT_IGNORED_EXCEPTIONS @ nullish (co_ignoredExceptions options) []"
    by (simp add: new_Configuration_def)
  show keys: "filterKeys (new_Configuration window options) =
          DEFAULT_FILTER_KEYS @ nullish (co_filterKeys options) []"
    by (simp add: new_Configuration_def)
  show "''password'' \<in> set (filterKeys (new_Configuration window options))"
    by (simp add: keys DEFAULT_FILTER_KEYS_def)
  show "''token'' \<in> set (filterKeys (new_Configuration window options))"
    by (simp add: keys DEFAULT_FILTER_KEYS_def)
  show "''authorization'' \<in> set (filterKeys (new_Configuration window options))"
    by (simp add: keys DEFAULT_FILTER_KEYS_def)
next
  assume "m = ''ResizeObserver loop limit exceeded'' \<or>
    m = ''ResizeObserver loop completed with undelivered notifications'' \<or>
    m = ''Script error'' \<or> m = ''Script error.''"
  then have "list_ex (pattern_matches cls m) DEFAULT_IGNORED_EXCEPTIONS"
    by (auto simp: DEFAULT_IGNORED_EXCEPTIONS_def script_error_re_def)
  then show "shouldIgnore (new_Configuration window options) cls m"
    by (rule shouldIgnore_default)
qed

lemma defaults_prepended_example:
  "shouldIgnore (new_Configuration (Some ''example.com'') (key_only ''test-key''))
     ''Error'' ''ResizeObserver loop limit exceeded'' \<and>
   shouldIgnore (new_Configuration (Some ''example.com'') (key_only ''test-key''))
     ''Error'' ''Script error.''"
  using defaults_prepended
      [where m = "''ResizeObserver loop limit exceeded''" and window = "Some ''example.com''"
         and options = "key_only ''test-key''" and cls = "''Error''"]
    defaults_prepended
      [where m = "''Script error.''" and window = "Some ''example.com''"
         and options = "key_only ''test-key''" and cls = "''Error''"]
  by simp


section \<open>The confirmable transport\<close>

lemma handleResponse_not_201:
  "status r \<noteq> 201 \<Longrightarrow> snd (snd (handleResponse r)) = Inr None"
  by (simp add: handleResponse_def Let_def)

lemma sendViaFetch_settle_rejected:
  "snd (snd (sendViaFetch_settle (FetchRejected ex))) = Inr None"
  by (cases ex) (simp add: sendViaFetch_settle_def)

lemma handleResponse_201_object:
  "status r = 201 \<Longrightarrow> json r = Inr (JObj kvs) \<Longrightarrow>
     snd (snd (handleResponse r)) = Inr (Some (JObj kvs))"
  by (simp add: handleResponse_def property_text_def split: option.split)

lemma handleResponse_201_unreadable:
  "status r = 201 \<Longrightarrow> json r = Inl ex \<Longrightarrow> snd (snd (handleResponse r)) = Inl ex"
  by (simp add: handleResponse_def)

text \<open>
  Every status but 201, and every rejection of \<open>fetch\<close> itself, settles
  \<open>sendViaFetch\<close> with \<open>null\<close>; status 201 with a body that parses to an object
  settles it with that object.
\<close>

lemma sendViaFetch_null_or_ack:
  "(status r \<noteq> 201 \<longrightarrow> snd (sendViaFetch s p (FetchResolved r)) = Inr None) \<and>
   snd (sendViaFetch s p (FetchRejected ex)) = Inr None \<and>
   (status r = 201 \<and> json r = Inr (JObj kvs) \<longrightarrow>
      snd (sendViaFetch s p (FetchResolved r)) = Inr (Some (JObj kvs)))"
proof (intro conjI impI)
  show "snd (sendViaFetch s p (FetchRejected ex)) = Inr None"
    by (simp add: sendViaFetch_def Let_def sendViaFetch_settle_rejected)
next
  assume "status r \<noteq> 201"
  then show "snd (sendViaFetch s p (FetchResolved r)) = Inr None"
    by (simp add: sendViaFetch_def Let_def sendViaFetch_settle_def handleResponse_not_201)
next
  assume "status r = 201 \<and> json r = Inr (JObj kvs)"
  then show "snd (sendViaFetch s p (FetchResolved r)) = Inr (Some (JObj kvs))"
    by (simp add: sendViaFetch_def Let_def sendViaFetch_settle_def handleResponse_201_object)
qed

text \<open>
  C6, at the failing input: \<open>fetch\<close> resolves with status 201 and a body that
  does not parse. \<open>sendViaFetch\<close> neither returns an acknowledgment nor
  \<open>null\<close>: its promise rejects with the error of \<open>response.json()\<close>.
\<close>

theorem sendViaFetch_unreadable_201:
  "snd (sendViaFetch (new_Client sample_config) (toPayload sample_env sample_notice)
          (FetchResolved unreadable_201)) =
     Inl (Thrown ''SyntaxError'' ''Unexpected end of JSON input'')"
  by (simp add: sendViaFetch_def sendViaFetch_settle_def handleResponse_def
      unreadable_201_def Let_def)


section \<open>The delivery queue\<close>

lemma client_log_fields [simp]:
  "client_config (client_log m s) = client_config s"
  "queue (client_log m s) = queue s"
  "sending (client_log m s) = sending s"
  "inflight (client_log m s) = inflight s"
  "drained (client_log m s) = drained s"
  "wire (client_log m s) = wire s"
  by (simp_all add: client_log_def)

lemma print_settle_fields [simp]:
  "client_config (print_settle r s) = client_config s"
  "queue (print_settle r s) = queue s"
  "sending (print_settle r s) = sending s"
  "inflight (print_settle r s) = inflight s"
  "drained (print_settle r s) = drained s"
  "wire (print_settle r s) = wire s"
  by (simp_all add: print_settle_def Let_def split: option.split)

lemma trySendBeacon_fields [simp]:
  "client_config (fst (trySendBeacon e s p)) = client_config s"
  "queue (fst (trySendBeacon e s p)) = queue s"
  "sending (fst (trySendBeacon e s p)) = sending s"
  "inflight (fst (trySendBeacon e s p)) = inflight s"
  "drained (fst (trySendBeacon e s p)) = drained s"
  by (simp_all add: trySendBeacon_def Let_def split: option.split beacon_result.split)

lemma sendViaFetch_fields [simp]:
  "client_config (fst (sendViaFetch s p outcome)) = client_config s"
  "queue (fst (sendViaFetch s p outcome)) = queue s"
  "sending (fst (sendViaFetch s p outcome)) = sending s"
  "inflight (fst (sendViaFetch s p outcome)) = inflight s"
  "drained (fst (sendViaFetch s p outcome)) = drained s"
  "wire (fst (sendViaFetch s p outcome)) = wire s @ [fetch_request (client_config s) p]"
  by (simp_all add: sendViaFetch_def Let_def)

lemma sendNotice_fields [simp]:
  "client_config (fst (sendNotice e s n outcome)) = client_config s"
  "queue (fst (sendNotice e s n outcome)) = queue s"
  "sending (fst (sendNotice e s n outcome)) = sending s"
  "inflight (fst (sendNotice e s n outcome)) = inflight s"
  "drained (fst (sendNotice e s n outcome)) = drained s"
proof -
  obtain s1 b where t: "trySendBeacon e s (toPayload e n) = (s1, b)"
    by (cases "trySendBeacon e s (toPayload e n)")
  have f: "client_config s1 = client_config s" "queue s1 = queue s" "sending s1 = sending s"
    "inflight s1 = inflight s" "drained s1 = drained s"
    using trySendBeacon_fields [of e s "toPayload e n"] t by simp_all
  show "client_config (fst (sendNotice e s n outcome)) = client_config s"
    by (simp add: sendNotice_def Let_def t f)
  show "queue (fst (sendNotice e s n outcome)) = queue s"
    by (simp add: sendNotice_def Let_def t f)
  show "sending (fst (sendNotice e s n outcome)) = sending s"
    by (simp add: sendNotice_def Let_def t f)
  show "inflight (fst (sendNotice e s n outcome)) = inflight s"
    by (simp add: sendNotice_def Let_def t f)
  show "drained (fst (sendNotice e s n outcome)) = drained s"
    by (simp add: sendNotice_def Let_def t f)
qed

lemma drain_loop_config [simp]: "client_config (drain_loop s) = client_config s"
  by (simp add: drain_loop_def split: list.split)

lemma processQueue_config [simp]: "client_config (processQueue s) = client_config s"
  by (simp add: processQueue_def)

lemma resume_config [simp]: "client_config (resume k outcome s) = client_config s"
  by (simp add: resume_def Let_def split: sum.split)

lemma queueNotice_config [simp]: "client_config (fst (queueNotice e s n)) = client_config s"
  by (simp add: queueNotice_def)

lemma step_config [simp]: "client_config (step e s ev) = client_config s"
  by (cases ev) simp_all

lemma run_config [simp]: "client_config (run e s evs) = client_config s"
  by (induction evs arbitrary: s) (simp_all add: run_def)

lemma run_Nil [simp]: "run e s [] = s"
  by (simp add: run_def)

lemma run_Cons [simp]: "run e s (ev # evs) = run e (step e s ev) evs"
  by (simp add: run_def)

subsection \<open>The invariant of the drain\<close>

lemma drain_loop_inv:
  "length (inflight s) = 0 \<Longrightarrow> sending s \<Longrightarrow> drain_inv (drain_loop s)"
  by (auto simp: drain_inv_def drain_loop_def split: list.split)

lemma step_inv: "drain_inv s \<Longrightarrow> drain_inv (step e s ev)"
proof (cases ev)
  case (QueueNotice n)
  assume inv: "drain_inv s"
  show ?thesis
  proof (cases "length (queue s) \<ge> maxQueueSize (client_config s)")
    case True
    with inv QueueNotice show ?thesis
      by (simp add: queueNotice_def drain_inv_def)
  next
    case False
    show ?thesis
    proof (cases "sending s")
      case True
      with inv False QueueNotice show ?thesis
        by (simp add: queueNotice_def processQueue_def drain_inv_def)
    next
      case ns: False
      with inv have "inflight s = []" "queue s = []"
        by (auto simp: drain_inv_def)
      with False ns QueueNotice show ?thesis
        by (simp add: queueNotice_def processQueue_def drain_loop_def drain_inv_def)
    qed
  qed
next
  case (SendNotice n outcome)
  assume "drain_inv s"
  with SendNotice show ?thesis by (simp add: drain_inv_def)
next
  case Flush
  assume inv: "drain_inv s"
  then have "sending s \<or> queue s = []" by (auto simp: drain_inv_def)
  with inv Flush show ?thesis by (auto simp: processQueue_def)
next
  case (Settle k outcome)
  assume inv: "drain_inv s"
  show ?thesis
  proof (cases "k < length (inflight s)")
    case False
    with inv Settle show ?thesis by (simp add: resume_def)
  next
    case True
    with inv have k0: "k = 0" and one: "length (inflight s) = 1" and snd: "sending s"
      by (auto simp: drain_inv_def)
    define s1 where "s1 = print_settle (sendViaFetch_settle outcome)
        (s\<lparr>inflight := take k (inflight s) @ drop (Suc k) (inflight s)\<rparr>)"
    have s1: "inflight s1 = []" "sending s1" "queue s1 = queue s"
      using k0 one snd by (simp_all add: s1_def)
    have a: "drain_inv s1"
      using s1 inv by (simp add: drain_inv_def)
    have b: "drain_inv (drain_loop s1)"
      using s1 by (simp add: drain_loop_inv)
    from True Settle a b show ?thesis
      by (simp add: resume_def Let_def s1_def split: sum.split)
  qed
qed

lemma run_inv: "drain_inv s \<Longrightarrow> drain_inv (run e s evs)"
  by (induction evs arbitrary: s) (simp_all add: step_inv)

lemma new_Client_inv: "drain_inv (new_Client c)"
  by (simp add: drain_inv_def new_Client_def)

subsection \<open>Order of the drain\<close>

lemma drain_loop_fifo: "drained (drain_loop s) @ queue (drain_loop s) = drained s @ queue s"
  by (simp add: drain_loop_def split: list.split)

lemma processQueue_fifo: "drained (processQueue s) @ queue (processQueue s) = drained s @ queue s"
  by (simp add: processQueue_def drain_loop_fifo [of "s\<lparr>sending := True\<rparr>", simplified])

lemma resume_fifo: "drained (resume k outcome s) @ queue (resume k outcome s) = drained s @ queue s"
proof -
  have "drained (drain_loop s1) @ queue (drain_loop s1) = drained s @ queue s"
    if "drained s1 = drained s" "queue s1 = queue s" for s1
    using that drain_loop_fifo [of s1] by simp
  then show ?thesis
    by (simp add: resume_def Let_def split: sum.split)
qed

lemma step_fifo:
  "drained (step e s ev) @ queue (step e s ev) = drained s @ queue s @ accepted e s [ev]"
proof (cases ev)
  case (QueueNotice n)
  then show ?thesis
    using processQueue_fifo [of "s\<lparr>queue := queue s @ [toPayload e n]\<rparr>"]
    by (simp add: queueNotice_def)
next
  case (SendNotice n outcome)
  then show ?thesis by simp
next
  case Flush
  then show ?thesis by (simp add: processQueue_fifo)
next
  case (Settle k outcome)
  then show ?thesis by (simp add: resume_fifo)
qed

lemma accepted_Cons: "accepted e s (ev # evs) = accepted e s [ev] @ accepted e (step e s ev) evs"
  by (cases ev) simp_all

lemma run_fifo:
  "drained (run e s evs) @ queue (run e s evs) = drained s @ queue s @ accepted e s evs"
proof (induction evs arbitrary: s)
  case Nil
  show ?case by simp
next
  case (Cons ev evs)
  have "drained (run e s (ev # evs)) @ queue (run e s (ev # evs)) =
        drained (step e s ev) @ queue (step e s ev) @ accepted e (step e s ev) evs"
    by (simp add: Cons.IH)
  also have "\<dots> = (drained s @ queue s @ accepted e s [ev]) @ accepted e (step e s ev) evs"
    using step_fifo [of e s ev] by simp
  also have "\<dots> = drained s @ queue s @ accepted e s (ev # evs)"
    by (simp add: accepted_Cons [of e s ev evs])
  finally show ?case .
qed

subsection \<open>Capacity\<close>

lemma drain_loop_length: "length (queue (drain_loop s)) \<le> length (queue s)"
  by (simp add: drain_loop_def split: list.split)

lemma processQueue_length: "length (queue (processQueue s)) \<le> length (queue s)"
  using drain_loop_length [of "s\<lparr>sending := True\<rparr>"] by (simp add: processQueue_def)

lemma resume_length: "length (queue (resume k outcome s)) \<le> length (queue s)"
proof -
  have "length (queue (drain_loop s1)) \<le> length (queue s)" if "queue s1 = queue s" for s1
    using that drain_loop_length [of s1] by simp
  then show ?thesis
    by (simp add: resume_def Let_def split: sum.split)
qed

lemma step_bounded:
  assumes "length (queue s) \<le> maxQueueSize (client_config s)"
  shows "length (queue (step e s ev)) \<le> maxQueueSize (client_config s)"
proof (cases ev)
  case (QueueNotice n)
  show ?thesis
  proof (cases "length (queue s) \<ge> maxQueueSize (client_config s)")
    case True
    with assms QueueNotice show ?thesis by (simp add: queueNotice_def)
  next
    case False
    have "length (queue (processQueue (s\<lparr>queue := queue s @ [toPayload e n]\<rparr>))) \<le>
            length (queue s) + 1"
      using processQueue_length [of "s\<lparr>queue := queue s @ [toPayload e n]\<rparr>"] by simp
    with False QueueNotice show ?thesis by (simp add: queueNotice_def)
  qed
next
  case (SendNotice n outcome)
  with assms show ?thesis by simp
next
  case Flush
  with assms processQueue_length [of s] show ?thesis by simp
next
  case (Settle k outcome)
  with assms resume_length [of k outcome s] show ?thesis by simp
qed

lemma run_bounded:
  "length (queue s) \<le> maxQueueSize (client_config s) \<Longrightarrow>
     length (queue (run e s evs)) \<le> maxQueueSize (client_config s)"
proof (induction evs arbitrary: s)
  case Nil
  then show ?case by simp
next
  case (Cons ev evs)
  from Cons.prems have "length (queue (step e s ev)) \<le> maxQueueSize (client_config (step e s ev))"
    using step_bounded [of s e ev] by simp
  from Cons.IH [OF this] show ?case by simp
qed

lemma queueNotice_full:
  assumes "length (queue s) \<ge> maxQueueSize (client_config s)"
  shows "snd (queueNotice e s n) = False \<and>
         queue (fst (queueNotice e s n)) = queue s \<and>
         inflight (fst (queueNotice e s n)) = inflight s \<and>
         drained (fst (queueNotice e s n)) = drained s \<and>
         wire (fst (queueNotice e s n)) = wire s \<and>
         sending (fst (queueNotice e s n)) = sending s"
  using assms by (simp add: queueNotice_def)

subsection \<open>Provenance of the wire\<close>

lemma drain_loop_wire:
  "wire (drain_loop s) = wire s @ map (fetch_request (client_config s)) (take 1 (queue s)) \<and>
   queue (drain_loop s) = drop 1 (queue s)"
  by (simp add: drain_loop_def split: list.split)

lemma processQueue_wire:
  "\<exists>ps. wire (processQueue s) = wire s @ map (fetch_request (client_config s)) ps \<and>
        set ps \<subseteq> set (queue s) \<and> set (queue (processQueue s)) \<subseteq> set (queue s)"
proof (cases "sending s \<or> length (queue s) = 0")
  case True
  then have "processQueue s = s" by (simp add: processQueue_def)
  then show ?thesis by (intro exI [of _ "[]"]) simp
next
  case False
  then have pq: "processQueue s = drain_loop (s\<lparr>sending := True\<rparr>)"
    by (simp add: processQueue_def)
  show ?thesis
    unfolding pq using drain_loop_wire [of "s\<lparr>sending := True\<rparr>"]
    by (intro exI [of _ "take 1 (queue s)"]) (auto dest: in_set_takeD in_set_dropD)
qed

lemma resume_wire:
  "\<exists>ps. wire (resume k outcome s) = wire s @ map (fetch_request (client_config s)) ps \<and>
        set ps \<subseteq> set (queue s) \<and> set (queue (resume k outcome s)) \<subseteq> set (queue s)"
proof -
  define s1 where "s1 = print_settle (sendViaFetch_settle outcome)
        (s\<lparr>inflight := take k (inflight s) @ drop (Suc k) (inflight s)\<rparr>)"
  have s1: "wire s1 = wire s" "queue s1 = queue s" "client_config s1 = client_config s"
    by (simp_all add: s1_def)
  have "resume k outcome s = s \<or> resume k outcome s = s1 \<or> resume k outcome s = drain_loop s1"
    by (simp add: resume_def Let_def s1_def split: sum.split)
  then consider "resume k outcome s = s" | "resume k outcome s = s1"
    | "resume k outcome s = drain_loop s1" by blast
  then show ?thesis
  proof cases
    case 1
    then show ?thesis by (intro exI [of _ "[]"]) simp
  next
    case 2
    then show ?thesis by (intro exI [of _ "[]"]) (simp add: s1)
  next
    case 3
    show ?thesis
      unfolding 3 using drain_loop_wire [of s1]
      by (intro exI [of _ "take 1 (queue s)"]) (auto simp: s1 dest: in_set_takeD in_set_dropD)
  qed
qed

lemma trySendBeacon_wire:
  "wire (fst (trySendBeacon e s p)) = wire s \<or>
   (\<exists>b. wire (fst (trySendBeacon e s p)) = wire s @ [ViaBeacon (beacon_url e s) p b])"
  by (simp add: trySendBeacon_def Let_def beacon_url_def split: option.split beacon_result.split)

lemma sendNotice_payloads:
  "set (map payload_of (wire (fst (sendNotice e s n outcome)))) \<subseteq>
     set (map payload_of (wire s)) \<union> {toPayload e n}"
proof -
  obtain s1 b where t: "trySendBeacon e s (toPayload e n) = (s1, b)"
    by (cases "trySendBeacon e s (toPayload e n)")
  have w: "set (map payload_of (wire s1)) \<subseteq> set (map payload_of (wire s)) \<union> {toPayload e n}"
    using trySendBeacon_wire [of e s "toPayload e n"] t by auto
  have c: "client_config s1 = client_config s"
    using trySendBeacon_fields(1) [of e s "toPayload e n"] t by simp
  show ?thesis
    using w by (auto simp: sendNotice_def Let_def t c fetch_request_def)
qed

lemma step_payloads:
  "set (map payload_of (wire (step e s ev))) \<subseteq>
     set (map payload_of (wire s)) \<union> set (queue s) \<union> set (accepted e s [ev]) \<union> set (direct e [ev]) \<and>
   set (queue (step e s ev)) \<subseteq> set (queue s) \<union> set (accepted e s [ev])"
proof (cases ev)
  case (QueueNotice n)
  show ?thesis
  proof (cases "length (queue s) \<ge> maxQueueSize (client_config s)")
    case True
    with QueueNotice show ?thesis by (simp add: queueNotice_def)
  next
    case False
    obtain ps where ps:
      "wire (processQueue (s\<lparr>queue := queue s @ [toPayload e n]\<rparr>)) =
         wire s @ map (fetch_request (client_config s)) ps"
      "set ps \<subseteq> set (queue s) \<union> {toPayload e n}"
      "set (queue (processQueue (s\<lparr>queue := queue s @ [toPayload e n]\<rparr>))) \<subseteq>
         set (queue s) \<union> {toPayload e n}"
      using processQueue_wire [of "s\<lparr>queue := queue s @ [toPayload e n]\<rparr>"] by auto
    with False QueueNotice show ?thesis
      by (auto simp: queueNotice_def fetch_request_def)
  qed
next
  case (SendNotice n outcome)
  with sendNotice_payloads [of e s n outcome] show ?thesis by auto
next
  case Flush
  obtain ps where "wire (processQueue s) = wire s @ map (fetch_request (client_config s)) ps"
    "set ps \<subseteq> set (queue s)" "set (queue (processQueue s)) \<subseteq> set (queue s)"
    using processQueue_wire [of s] by auto
  with Flush show ?thesis by (auto simp: fetch_request_def)
next
  case (Settle k outcome)
  obtain ps where "wire (resume k outcome s) = wire s @ map (fetch_request (client_config s)) ps"
    "set ps \<subseteq> set (queue s)" "set (queue (resume k outcome s)) \<subseteq> set (queue s)"
    using resume_wire [of k outcome s] by auto
  with Settle show ?thesis by (auto simp: fetch_request_def)
qed

lemma direct_Cons: "direct e (ev # evs) = direct e [ev] @ direct e evs"
  by (cases ev) simp_all

lemma run_payloads:
  "set (map payload_of (wire (run e s evs))) \<subseteq>
     set (map payload_of (wire s)) \<union> set (queue s) \<union> set (accepted e s evs) \<union> set (direct e evs)"
proof (induction evs arbitrary: s)
  case Nil
  show ?case by simp
next
  case (Cons ev evs)
  have "set (map payload_of (wire (run e s (ev # evs)))) \<subseteq>
          set (map payload_of (wire (step e s ev))) \<union> set (queue (step e s ev)) \<union>
          set (accepted e (step e s ev) evs) \<union> set (direct e evs)"
    using Cons.IH [of "step e s ev"] by simp
  also have "\<dots> \<subseteq> set (map payload_of (wire s)) \<union> set (queue s) \<union>
          (set (accepted e s [ev]) \<union> set (accepted e (step e s ev) evs)) \<union>
          (set (direct e [ev]) \<union> set (direct e evs))"
    using step_payloads [of e s ev] by blast
  also have "\<dots> = set (map payload_of (wire s)) \<union> set (queue s) \<union>
          set (accepted e s (ev # evs)) \<union> set (direct e (ev # evs))"
    using accepted_Cons [of e s ev evs] direct_Cons [of e ev evs]
    by (metis set_append)
  finally show ?case .
qed

subsection \<open>The wire of the drain\<close>

text \<open>
  What a turn of the queue puts on the wire is the request of \<open>fetch\<close> for each
  payload it adds to the drained ones, in that order; so along a run without
  direct sends the wire is the drained payloads, each as its request.
\<close>

lemma drain_loop_wire_drained:
  "wire (drain_loop s) =
     wire s @ map (fetch_request (client_config s)) (drop (length (drained s)) (drained (drain_loop s)))"
  by (simp add: drain_loop_def split: list.split)

lemma processQueue_wire_drained:
  "wire (processQueue s) =
     wire s @ map (fetch_request (client_config s)) (drop (length (drained s)) (drained (processQueue s)))"
  using drain_loop_wire_drained [of "s\<lparr>sending := True\<rparr>"] by (simp add: processQueue_def)

lemma resume_wire_drained:
  "wire (resume k outcome s) =
     wire s @ map (fetch_request (client_config s)) (drop (length (drained s)) (drained (resume k outcome s)))"
proof -
  define s1 where "s1 = print_settle (sendViaFetch_settle outcome)
        (s\<lparr>inflight := take k (inflight s) @ drop (Suc k) (inflight s)\<rparr>)"
  have s1: "wire s1 = wire s" "drained s1 = drained s" "client_config s1 = client_config s"
    by (simp_all add: s1_def)
  have d: "wire (drain_loop s1) =
     wire s @ map (fetch_request (client_config s)) (drop (length (drained s)) (drained (drain_loop s1)))"
    using drain_loop_wire_drained [of s1] by (simp add: s1)
  show ?thesis
    using d by (simp add: resume_def Let_def s1_def [symmetric] s1 split: sum.split)
qed

lemma queueNotice_wire_drained:
  "wire (fst (queueNotice e s n)) =
     wire s @ map (fetch_request (client_config s))
       (drop (length (drained s)) (drained (fst (queueNotice e s n))))"
  using processQueue_wire_drained [of "s\<lparr>queue := queue s @ [toPayload e n]\<rparr>"]
  by (simp add: queueNotice_def)

lemma step_wire_drained:
  assumes "direct e [ev] = []"
  shows "wire (step e s ev) =
     wire s @ map (fetch_request (client_config s)) (drop (length (drained s)) (drained (step e s ev)))"
  using assms
  by (cases ev) (simp_all add: queueNotice_wire_drained processQueue_wire_drained resume_wire_drained)

lemma drained_grows: "take (length (drained s)) (drained (step e s ev)) = drained s"
proof -
  have dl: "take (length (drained s)) (drained (drain_loop s1)) = drained s"
    if "drained s1 = drained s" for s1
    using that by (simp add: drain_loop_def split: list.split)
  show ?thesis
  proof (cases ev)
    case (QueueNotice n)
    then show ?thesis
      using dl [of "s\<lparr>queue := queue s @ [toPayload e n], sending := True\<rparr>"]
      by (simp add: queueNotice_def processQueue_def)
  next
    case (SendNotice n outcome)
    then show ?thesis by simp
  next
    case Flush
    then show ?thesis using dl [of "s\<lparr>sending := True\<rparr>"] by (simp add: processQueue_def)
  next
    case (Settle k outcome)
    then show ?thesis
      using dl [of "print_settle (sendViaFetch_settle outcome)
        (s\<lparr>inflight := take k (inflight s) @ drop (Suc k) (inflight s)\<rparr>)"]
      by (simp add: resume_def Let_def split: sum.split)
  qed
qed

lemma step_wd:
  assumes "wire s = map (fetch_request (client_config s)) (drained s)" "direct e [ev] = []"
  shows "wire (step e s ev) = map (fetch_request (client_config s)) (drained (step e s ev))"
proof -
  have "drained (step e s ev) =
          take (length (drained s)) (drained (step e s ev)) @
          drop (length (drained s)) (drained (step e s ev))"
    by simp
  then have "drained (step e s ev) = drained s @ drop (length (drained s)) (drained (step e s ev))"
    by (simp add: drained_grows)
  then have "map (fetch_request (client_config s)) (drained (step e s ev)) =
          map (fetch_request (client_config s)) (drained s) @
          map (fetch_request (client_config s)) (drop (length (drained s)) (drained (step e s ev)))"
    by (metis map_append)
  with assms step_wire_drained [OF assms(2), of s] show ?thesis by simp
qed

lemma direct_Nil_Cons: "direct e (ev # evs) = [] \<longleftrightarrow> direct e [ev] = [] \<and> direct e evs = []"
  by (cases ev) simp_all

lemma run_wd:
  "wire s = map (fetch_request (client_config s)) (drained s) \<Longrightarrow> direct e evs = [] \<Longrightarrow>
     wire (run e s evs) = map (fetch_request (client_config s)) (drained (run e s evs))"
proof (induction evs arbitrary: s)
  case Nil
  then show ?case by simp
next
  case (Cons ev evs)
  from Cons.prems(2) have d: "direct e [ev] = []" "direct e evs = []"
    using direct_Nil_Cons [of e ev evs] by blast+
  have "wire (step e s ev) = map (fetch_request (client_config (step e s ev))) (drained (step e s ev))"
    using step_wd [OF Cons.prems(1) d(1)] by simp
  from Cons.IH [OF this d(2)] show ?case by simp
qed

subsection \<open>Choice of the transport\<close>

lemma only_fetch_added_append:
  "wire s' = wire s @ ts \<Longrightarrow> list_all is_fetch ts \<Longrightarrow> only_fetch_added s s'"
  by (simp add: only_fetch_added_def)

lemma processQueue_only_fetch: "only_fetch_added s (processQueue s)"
proof -
  obtain ps where "wire (processQueue s) = wire s @ map (fetch_request (client_config s)) ps"
    using processQueue_wire [of s] by auto
  then show ?thesis
    by (rule only_fetch_added_append) (simp add: list_all_iff fetch_request_def)
qed

lemma resume_only_fetch: "only_fetch_added s (resume k outcome s)"
proof -
  obtain ps where "wire (resume k outcome s) = wire s @ map (fetch_request (client_config s)) ps"
    using resume_wire [of k outcome s] by auto
  then show ?thesis
    by (rule only_fetch_added_append) (simp add: list_all_iff fetch_request_def)
qed

lemma queueNotice_only_fetch: "only_fetch_added s (fst (queueNotice e s n))"
proof (cases "length (queue s) \<ge> maxQueueSize (client_config s)")
  case True
  then show ?thesis by (simp add: queueNotice_def only_fetch_added_def)
next
  case False
  obtain ps where
    "wire (processQueue (s\<lparr>queue := queue s @ [toPayload e n]\<rparr>)) =
       wire s @ map (fetch_request (client_config s)) ps"
    using processQueue_wire [of "s\<lparr>queue := queue s @ [toPayload e n]\<rparr>"] by auto
  then have "only_fetch_added s (processQueue (s\<lparr>queue := queue s @ [toPayload e n]\<rparr>))"
    by (rule only_fetch_added_append) (simp add: list_all_iff fetch_request_def)
  with False show ?thesis by (simp add: queueNotice_def)
qed

lemma sendNotice_beacon_accepts:
  assumes "useSendBeacon (client_config s)" "navigator_sendBeacon e = Some b"
    "b (beacon_url e s) (toPayload e n) = BeaconReturns True"
  shows "wire (fst (sendNotice e s n outcome)) =
           wire s @ [ViaBeacon (beacon_url e s) (toPayload e n) True] \<and>
         snd (sendNotice e s n outcome) = Inr None"
  using assms by (simp add: sendNotice_def trySendBeacon_def Let_def beacon_url_def)

lemma sendNotice_beacon_refuses:
  assumes "useSendBeacon (client_config s)" "navigator_sendBeacon e = Some b"
    "b (beacon_url e s) (toPayload e n) = BeaconReturns False"
  shows "wire (fst (sendNotice e s n outcome)) =
           wire s @ [ViaBeacon (beacon_url e s) (toPayload e n) False,
                     fetch_request (client_config s) (toPayload e n)]"
  using assms by (simp add: sendNotice_def trySendBeacon_def Let_def beacon_url_def)

lemma sendNotice_no_beacon:
  assumes "\<not> useSendBeacon (client_config s) \<or> navigator_sendBeacon e = None \<or>
    (navigator_sendBeacon e = Some b \<and> b (beacon_url e s) (toPayload e n) = BeaconThrows ex)"
  shows "wire (fst (sendNotice e s n outcome)) =
           wire s @ [fetch_request (client_config s) (toPayload e n)]"
  using assms by (auto simp: sendNotice_def trySendBeacon_def Let_def beacon_url_def)

text \<open>
  C1, amended. On the direct path, \<open>sendNotice\<close>, the beacon is tried first when
  the option is on and the navigator has one: when it answers true, that beacon is
  the only transmission and the result is \<open>null\<close>; when it answers false, the
  request of \<open>fetch\<close> follows it; when the option is off, or there is no beacon,
  or the beacon throws, the request of \<open>fetch\<close> is the only transmission. The
  queue never tries the beacon: whatever \<open>queueNotice\<close>, \<open>processQueue\<close> and the
  resumption of the drain put on the wire is a request of \<open>fetch\<close>, and a turn of
  the drain loop puts there the request of \<open>fetch\<close> for the payload it pops.
\<close>

theorem transport_selection:
  "(useSendBeacon (client_config s) \<and> navigator_sendBeacon e = Some b \<and>
    b (beacon_url e s) (toPayload e n) = BeaconReturns True \<longrightarrow>
      wire (fst (sendNotice e s n outcome)) =
        wire s @ [ViaBeacon (beacon_url e s) (toPayload e n) True] \<and>
      snd (sendNotice e s n outcome) = Inr None) \<and>
   (useSendBeacon (client_config s) \<and> navigator_sendBeacon e = Some b \<and>
    b (beacon_url e s) (toPayload e n) = BeaconReturns False \<longrightarrow>
      wire (fst (sendNotice e s n outcome)) =
        wire s @ [ViaBeacon (beacon_url e s) (toPayload e n) False,
                  fetch_request (client_config s) (toPayload e n)]) \<and>
   (\<not> useSendBeacon (client_config s) \<or> navigator_sendBeacon e = None \<or>
    (navigator_sendBeacon e = Some b \<and>
     b (beacon_url e s) (toPayload e n) = BeaconThrows ex) \<longrightarrow>
      wire (fst (sendNotice e s n outcome)) =
        wire s @ [fetch_request (client_config s) (toPayload e n)]) \<and>
   only_fetch_added s (fst (queueNotice e s n)) \<and>
   only_fetch_added s (processQueue s) \<and>
   only_fetch_added s (resume k outcome s) \<and>
   wire (drain_loop s) = wire s @ map (fetch_request (client_config s)) (take 1 (queue s))"
  using sendNotice_beacon_accepts [of s e b n outcome]
    sendNotice_beacon_refuses [of s e b n outcome]
    sendNotice_no_beacon [of s e b n ex outcome]
    queueNotice_only_fetch [of s e n] processQueue_only_fetch [of s]
    resume_only_fetch [of s k outcome] drain_loop_wire [of s]
  by blast

lemma sample_beacon:
  "useSendBeacon (client_config (new_Client sample_config)) \<and>
   navigator_sendBeacon sample_env = Some (\<lambda>url payload. BeaconReturns True) \<and>
   beacon_url sample_env (new_Client sample_config) =
     ''https://app.checkend.io/ingest/v1/errors?key=test-key'' \<and>
   wire (new_Client sample_config) = []"
  by (simp add: sample_config_def new_Configuration_def key_only_def nullish_def sample_env_def
      new_Client_def beacon_url_def ingestUrl_def DEFAULT_ENDPOINT_def)

theorem transport_selection_witness:
  "wire (fst (sendNotice sample_env (new_Client sample_config) sample_notice
                (FetchResolved created_response))) =
     [ViaBeacon ''https://app.checkend.io/ingest/v1/errors?key=test-key''
        (toPayload sample_env sample_notice) True] \<and>
   snd (sendNotice sample_env (new_Client sample_config) sample_notice
          (FetchResolved created_response)) = Inr None"
  using transport_selection
      [where s = "new_Client sample_config" and e = sample_env
         and b = "\<lambda>url payload. BeaconReturns True" and n = sample_notice
         and outcome = "FetchResolved created_response"]
    sample_beacon
  by simp

text \<open>
  C1, as stated for the pops of the drain: with the option on and a beacon that
  accepts everything, the notice that \<open>queueNotice\<close> takes goes out as a request
  of \<open>fetch\<close>; the beacon is not tried.
\<close>

theorem drain_ignores_beacon_counterexample:
  "useSendBeacon (client_config (new_Client sample_config)) \<and>
   navigator_sendBeacon sample_env \<noteq> None \<and>
   wire (fst (queueNotice sample_env (new_Client sample_config) sample_notice)) =
     [ViaFetch ''https://app.checkend.io/ingest/v1/errors'' ''test-key''
        (toPayload sample_env sample_notice)]"
  by (simp add: sample_config_def new_Configuration_def key_only_def nullish_def sample_env_def
      new_Client_def queueNotice_def processQueue_def drain_loop_def fetch_request_def
      ingestUrl_def DEFAULT_ENDPOINT_def)

subsection \<open>Single flight, order and capacity\<close>

text \<open>
  The invariants of the drain. In every state a client reaches from its
  construction, by any sequence of queued notices, direct sends, calls of
  \<open>processQueue\<close> from \<open>flush\<close> and settled requests: while a drain is active
  (\<open>sending\<close>), another call of \<open>processQueue\<close> changes nothing; the payloads
  the drain has handed to the transport, followed by those still queued, are
  exactly the accepted payloads in the order of their acceptance, so none is
  handed over twice or out of order; without direct sends the wire is the requests
  of \<open>fetch\<close> for the drained payloads, in order; at most one request of the
  drain is in flight; a request in flight or a non-empty queue means that
  \<open>sending\<close> is set; and when it is not set every accepted payload has been
  handed over, once.
\<close>

lemma drain_single_flight_fifo:
  assumes "s = run e (new_Client c) evs"
  shows "(sending s \<longrightarrow> processQueue s = s \<and> step e s Flush = s) \<and>
         drained s @ queue s = accepted e (new_Client c) evs \<and>
         (direct e evs = [] \<longrightarrow> wire s = map (fetch_request c) (drained s)) \<and>
         length (inflight s) \<le> 1 \<and>
         (inflight s \<noteq> [] \<or> queue s \<noteq> [] \<longrightarrow> sending s) \<and>
         (\<not> sending s \<longrightarrow> drained s = accepted e (new_Client c) evs)"
proof -
  have inv: "drain_inv s"
    unfolding assms by (rule run_inv [OF new_Client_inv])
  have fifo: "drained s @ queue s = accepted e (new_Client c) evs"
    unfolding assms using run_fifo [of e "new_Client c" evs] by (simp add: new_Client_def)
  have wd: "direct e evs = [] \<longrightarrow> wire s = map (fetch_request c) (drained s)"
    unfolding assms using run_wd [of "new_Client c" e evs] by (simp add: new_Client_def)
  have noop: "sending s \<longrightarrow> processQueue s = s \<and> step e s Flush = s"
    by (simp add: processQueue_def)
  have one: "length (inflight s) \<le> 1"
    using inv by (simp add: drain_inv_def)
  have act: "inflight s \<noteq> [] \<or> queue s \<noteq> [] \<longrightarrow> sending s"
    using inv by (auto simp: drain_inv_def)
  have idle: "\<not> sending s \<longrightarrow> drained s = accepted e (new_Client c) evs"
    using act fifo by auto
  from noop fifo wd one act idle show ?thesis by blast
qed

text \<open>
  C4. In every state a client reaches from its construction the queue holds at most
  \<open>maxQueueSize\<close> entries, 100 when the option is not given. When it holds that many, \<open>queueNotice\<close> answers
  false and leaves the queue, the requests in flight, the drained payloads and the
  wire as they are, and the notice is not among the accepted ones. Every payload on
  the wire is the payload of an accepted notice or of a notice sent directly, so a
  rejected entry is never transmitted.
\<close>

theorem queue_bounded:
  assumes "s = run e (new_Client c) evs"
  shows "length (queue s) \<le> maxQueueSize c \<and>
         (length (queue s) \<ge> maxQueueSize c \<longrightarrow>
            snd (queueNotice e s n) = False \<and>
            queue (fst (queueNotice e s n)) = queue s \<and>
            inflight (fst (queueNotice e s n)) = inflight s \<and>
            drained (fst (queueNotice e s n)) = drained s \<and>
            wire (fst (queueNotice e s n)) = wire s \<and>
            accepted e s [QueueNotice n] = []) \<and>
         set (map payload_of (wire s)) \<subseteq> set (accepted e (new_Client c) evs) \<union> set (direct e evs) \<and>
         (co_maxQueueSize options = None \<longrightarrow> maxQueueSize (new_Configuration w options) = 100)"
proof -
  have dflt: "co_maxQueueSize options = None \<longrightarrow> maxQueueSize (new_Configuration w options) = 100"
    by (simp add: new_Configuration_def nullish_def)
  have cfg: "client_config s = c"
    unfolding assms by (simp add: new_Client_def)
  have a: "length (queue s) \<le> maxQueueSize c"
    unfolding assms using run_bounded [of "new_Client c" e evs] by (simp add: new_Client_def)
  have b: "length (queue s) \<ge> maxQueueSize c \<longrightarrow>
            snd (queueNotice e s n) = False \<and>
            queue (fst (queueNotice e s n)) = queue s \<and>
            inflight (fst (queueNotice e s n)) = inflight s \<and>
            drained (fst (queueNotice e s n)) = drained s \<and>
            wire (fst (queueNotice e s n)) = wire s \<and>
            accepted e s [QueueNotice n] = []"
    using queueNotice_full [of s e n] cfg by simp
  have d: "set (map payload_of (wire s)) \<subseteq> set (accepted e (new_Client c) evs) \<union> set (direct e evs)"
    unfolding assms using run_payloads [of e "new_Client c" evs] by (simp add: new_Client_def)
  from a b d dflt show ?thesis by blast
qed

lemmas client_eval =
  run_def queueNotice_def processQueue_def drain_loop_def resume_def new_Client_def
  sendViaFetch_settle_def handleResponse_def property_text_def print_settle_def client_log_def
  fetch_request_def Let_def created_response_def

lemma sample_debug: "debug sample_config = False \<and> maxQueueSize sample_config = 100"
  by (simp add: sample_config_def new_Configuration_def key_only_def nullish_def)

lemma small_debug: "debug small_config = False \<and> maxQueueSize small_config = 2"
  by (simp add: small_config_def new_Configuration_def key_only_def nullish_def)

lemma mid_drain:
  "sending (run sample_env (new_Client sample_config)
      [QueueNotice (notice_of ''first''), QueueNotice (notice_of ''second'')]) \<and>
   queue (run sample_env (new_Client sample_config)
      [QueueNotice (notice_of ''first''), QueueNotice (notice_of ''second'')]) =
     [toPayload sample_env (notice_of ''second'')]"
  by (simp add: client_eval sample_debug)

lemma after_drain:
  "\<not> sending (run sample_env (new_Client sample_config)
      [QueueNotice (notice_of ''first''), QueueNotice (notice_of ''second''),
       Settle 0 (FetchResolved created_response), Flush,
       Settle 0 (FetchResolved created_response)]) \<and>
   accepted sample_env (new_Client sample_config)
      [QueueNotice (notice_of ''first''), QueueNotice (notice_of ''second''),
       Settle 0 (FetchResolved created_response), Flush,
       Settle 0 (FetchResolved created_response)] =
     [toPayload sample_env (notice_of ''first''), toPayload sample_env (notice_of ''second'')]"
  by (simp add: client_eval sample_debug)

lemma direct_sample:
  "direct sample_env
     [QueueNotice (notice_of ''first''), QueueNotice (notice_of ''second''),
      Settle 0 (FetchResolved created_response), Flush,
      Settle 0 (FetchResolved created_response)] = []"
  by simp

lemma drain_single_flight_fifo_example:
  "processQueue (run sample_env (new_Client sample_config)
      [QueueNotice (notice_of ''first''), QueueNotice (notice_of ''second'')]) =
     run sample_env (new_Client sample_config)
      [QueueNotice (notice_of ''first''), QueueNotice (notice_of ''second'')] \<and>
   drained (run sample_env (new_Client sample_config)
      [QueueNotice (notice_of ''first''), QueueNotice (notice_of ''second''),
       Settle 0 (FetchResolved created_response), Flush,
       Settle 0 (FetchResolved created_response)]) =
     [toPayload sample_env (notice_of ''first''), toPayload sample_env (notice_of ''second'')] \<and>
   wire (run sample_env (new_Client sample_config)
      [QueueNotice (notice_of ''first''), QueueNotice (notice_of ''second''),
       Settle 0 (FetchResolved created_response), Flush,
       Settle 0 (FetchResolved created_response)]) =
     [fetch_request sample_config (toPayload sample_env (notice_of ''first'')),
      fetch_request sample_config (toPayload sample_env (notice_of ''second''))]"
  using drain_single_flight_fifo [OF refl, of sample_env sample_config
      "[QueueNotice (notice_of ''first''), QueueNotice (notice_of ''second'')]"]
    drain_single_flight_fifo [OF refl, of sample_env sample_config
      "[QueueNotice (notice_of ''first''), QueueNotice (notice_of ''second''),
       Settle 0 (FetchResolved created_response), Flush,
       Settle 0 (FetchResolved created_response)]"]
    mid_drain after_drain direct_sample
  by simp

lemma full_queue:
  "queue (run sample_env (new_Client small_config)
      [QueueNotice (notice_of ''first''), QueueNotice (notice_of ''second''),
       QueueNotice (notice_of ''third'')]) =
     [toPayload sample_env (notice_of ''second''), toPayload sample_env (notice_of ''third'')] \<and>
   maxQueueSize small_config = 2"
  by (simp add: client_eval small_debug)

theorem queue_bounded_witness:
  "length (queue (run sample_env (new_Client small_config)
      [QueueNotice (notice_of ''first''), QueueNotice (notice_of ''second''),
       QueueNotice (notice_of ''third'')])) = 2 \<and>
   snd (queueNotice sample_env (run sample_env (new_Client small_config)
      [QueueNotice (notice_of ''first''), QueueNotice (notice_of ''second''),
       QueueNotice (notice_of ''third'')]) (notice_of ''fourth'')) = False \<and>
   queue (fst (queueNotice sample_env (run sample_env (new_Client small_config)
      [QueueNotice (notice_of ''first''), QueueNotice (notice_of ''second''),
       QueueNotice (notice_of ''third'')]) (notice_of ''fourth''))) =
     [toPayload sample_env (notice_of ''second''), toPayload sample_env (notice_of ''third'')]"
  using queue_bounded [OF refl, of sample_env small_config
      "[QueueNotice (notice_of ''first''), QueueNotice (notice_of ''second''),
        QueueNotice (notice_of ''third'')]" "notice_of ''fourth''"]
    full_queue
  by simp


section \<open>Pre-send callbacks\<close>

lemma calls_made_Cons:
  "calls_made (r # os) = (if r = veto then [veto] else r # calls_made os)"
  by (simp add: calls_made_def)

lemma run_callbacks_veto:
  "fst (callback n) = veto \<Longrightarrow>
     run_callbacks dbg (callback # rest) n =
       (False, snd (callback n),
        (if dbg then [ConsoleLog ''[Checkend] Notice blocked by beforeNotify callback''] else []),
        [veto])"
  by (cases "callback n") (simp add: veto_def)

lemma run_callbacks_pass:
  "fst (callback n) = Returned r \<Longrightarrow> Returned r \<noteq> veto \<Longrightarrow>
     run_callbacks dbg (callback # rest) n =
       (case run_callbacks dbg rest (snd (callback n)) of
          (ok, final, lines, calls) \<Rightarrow> (ok, final, lines, Returned r # calls))"
  by (cases "callback n") (auto simp: veto_def split: option.split bool.split)

lemma run_callbacks_throw:
  "fst (callback n) = Threw ex \<Longrightarrow>
     run_callbacks dbg (callback # rest) n =
       (case run_callbacks dbg rest (snd (callback n)) of
          (ok, final, lines, calls) \<Rightarrow>
            (ok, final, logWarn (''beforeNotify callback failed: '' @ ex) # lines,
             Threw ex # calls))"
  by (cases "callback n") simp

lemma run_callbacks_char:
  "run_callbacks dbg cbs n = (ok, final, lines, calls) \<Longrightarrow>
     (ok \<longleftrightarrow> veto \<notin> set (outcomes cbs n)) \<and>
     calls = calls_made (outcomes cbs n) \<and>
     lines = warnings_of calls @
       (if \<not> ok \<and> dbg then [ConsoleLog ''[Checkend] Notice blocked by beforeNotify callback'']
        else [])"
proof (induction cbs arbitrary: n ok final lines calls)
  case Nil
  then show ?case by (auto simp: calls_made_def)
next
  case (Cons callback rest)
  obtain ok' final' lines' calls' where
    r: "run_callbacks dbg rest (snd (callback n)) = (ok', final', lines', calls')"
    by (cases "run_callbacks dbg rest (snd (callback n))") auto
  note ih = Cons.IH [OF r]
  show ?case
  proof (cases "fst (callback n)")
    case (Threw ex)
    from Cons.prems have eq: "ok = ok'" "calls = Threw ex # calls'"
      "lines = logWarn (''beforeNotify callback failed: '' @ ex) # lines'"
      unfolding run_callbacks_throw [where callback = callback and n = n, OF Threw] r by simp_all
    have nv: "Threw ex \<noteq> veto" "veto \<noteq> Threw ex" by (simp_all add: veto_def)
    from ih show ?thesis
      unfolding eq by (simp add: Threw calls_made_Cons nv)
  next
    case (Returned r0)
    show ?thesis
    proof (cases "Returned r0 = veto")
      case True
      with Returned have v: "fst (callback n) = veto" by simp
      from Cons.prems have eq: "ok = False" "calls = [veto]"
        "lines = (if dbg then [ConsoleLog ''[Checkend] Notice blocked by beforeNotify callback'']
                  else [])"
        unfolding run_callbacks_veto [where callback = callback and n = n, OF v] by simp_all
      have vr: "warnings_of [veto] = []" by (simp add: veto_def)
      show ?thesis
        unfolding eq by (simp add: v calls_made_Cons vr)
    next
      case False
      from Cons.prems have eq: "ok = ok'" "calls = Returned r0 # calls'" "lines = lines'"
        unfolding run_callbacks_pass [where callback = callback and n = n, OF Returned False] r by simp_all
      from False have nv: "veto \<noteq> Returned r0" by auto
      from ih show ?thesis
        unfolding eq using False nv by (simp add: Returned calls_made_Cons)
    qed
  qed
qed

lemma run_callbacks_final:
  "run_callbacks dbg cbs n = (ok, final, lines, calls) \<Longrightarrow>
     final = fold (\<lambda>cb m. snd (cb m)) (take (length calls) cbs) n"
proof (induction cbs arbitrary: n ok final lines calls)
  case Nil
  then show ?case by auto
next
  case (Cons callback rest)
  obtain ok' final' lines' calls' where
    r: "run_callbacks dbg rest (snd (callback n)) = (ok', final', lines', calls')"
    by (cases "run_callbacks dbg rest (snd (callback n))") auto
  note ih = Cons.IH [OF r]
  show ?case
  proof (cases "fst (callback n)")
    case (Threw ex)
    from Cons.prems have eq: "final = final'" "calls = Threw ex # calls'"
      unfolding run_callbacks_throw [where callback = callback and n = n, OF Threw] r by simp_all
    from ih show ?thesis unfolding eq by simp
  next
    case (Returned r0)
    show ?thesis
    proof (cases "Returned r0 = veto")
      case True
      with Returned have v: "fst (callback n) = veto" by simp
      from Cons.prems have eq: "final = snd (callback n)" "calls = [veto]"
        unfolding run_callbacks_veto [where callback = callback and n = n, OF v] by simp_all
      show ?thesis unfolding eq by simp
    next
      case False
      from Cons.prems have eq: "final = final'" "calls = Returned r0 # calls'"
        unfolding run_callbacks_pass [where callback = callback and n = n, OF Returned False] r
        by simp_all
      from ih show ?thesis unfolding eq by simp
    qed
  qed
qed

lemma outcomes_length: "length (outcomes cbs m) = length cbs"
  by (induction cbs arbitrary: m) simp_all

lemma warnings_of_member:
  "Threw ex \<in> set rs \<Longrightarrow>
     logWarn (''beforeNotify callback failed: '' @ ex) \<in> set (warnings_of rs)"
  by (induction rs rule: warnings_of.induct) auto

text \<open>
  C7. With a configuration in place, let the results be those the registered
  callbacks give when called in registration order, each on the notice as the
  earlier ones left it. The answer of \<open>runBeforeNotifyCallbacks\<close> is false exactly
  when one of them is the explicit \<open>false\<close>; the calls made are then the ones up to
  and including the first such result, and no later callback is called or touches
  the notice; otherwise every callback is called. A callback that throws is one of
  the calls made, its warning is printed, it does not make the answer false, and
  the callbacks after it are called. On a veto the client is left alone; otherwise
  the notice, as the calls left it, goes to \<open>queueNotice\<close>.
\<close>

theorem callbacks_in_order:
  assumes "config s = Some c"
    and "runBeforeNotifyCallbacks s n = (ok, final, lines, calls)"
  shows "(ok \<longleftrightarrow> veto \<notin> set (outcomes (beforeNotify c) n)) \<and>
         calls = calls_made (outcomes (beforeNotify c) n) \<and>
         (veto \<in> set (outcomes (beforeNotify c) n) \<longrightarrow>
            calls = takeWhile (\<lambda>r. r \<noteq> veto) (outcomes (beforeNotify c) n) @ [veto]) \<and>
         (veto \<notin> set (outcomes (beforeNotify c) n) \<longrightarrow>
            calls = outcomes (beforeNotify c) n \<and> length calls = length (beforeNotify c)) \<and>
         final = fold (\<lambda>cb m. snd (cb m)) (take (length calls) (beforeNotify c)) n \<and>
         lines = warnings_of calls @
           (if \<not> ok \<and> debug c
            then [ConsoleLog ''[Checkend] Notice blocked by beforeNotify callback''] else []) \<and>
         (\<forall>ex. Threw ex \<in> set calls \<longrightarrow>
            logWarn (''beforeNotify callback failed: '' @ ex) \<in> set lines) \<and>
         (\<not> ok \<longrightarrow> client (callbacks_then_queue e s cl n) = client s) \<and>
         (ok \<longrightarrow> client (callbacks_then_queue e s cl n) = Some (fst (queueNotice e cl final)))"
proof -
  from assms have r: "run_callbacks (debug c) (beforeNotify c) n = (ok, final, lines, calls)"
    by (simp add: runBeforeNotifyCallbacks_def)
  note ch = run_callbacks_char [OF r]
  note fin = run_callbacks_final [OF r]
  have q: "(\<not> ok \<longrightarrow> client (callbacks_then_queue e s cl n) = client s) \<and>
         (ok \<longrightarrow> client (callbacks_then_queue e s cl n) = Some (fst (queueNotice e cl final)))"
    using assms(2) by (simp add: callbacks_then_queue_def Let_def)
  from ch have w: "\<forall>ex. Threw ex \<in> set calls \<longrightarrow>
            logWarn (''beforeNotify callback failed: '' @ ex) \<in> set lines"
    by (auto dest: warnings_of_member)
  from ch fin q w show ?thesis
    by (simp add: calls_made_def outcomes_length)
qed

lemma hooked_config:
  "config hooked_sdk =
     Some (new_Configuration (Some ''example.com'')
       ((key_only ''test-key'')\<lparr>co_beforeNotify := Some [cb_throws, cb_tag, cb_veto, cb_void]\<rparr>))"
  by (simp add: hooked_sdk_def configure_def Let_def isValid_def new_Configuration_def
      key_only_def nullish_def sample_env_def DEFAULT_ENDPOINT_def start_def initial_sdk_def
      log_def)

lemma hooked_run:
  "runBeforeNotifyCallbacks hooked_sdk sample_notice =
     (False, sample_notice\<lparr>tags := [''seen'']\<rparr>,
      [logWarn ''beforeNotify callback failed: Error: broken''],
      [Threw ''Error: broken'', Returned (Some True), veto])"
  by (simp add: runBeforeNotifyCallbacks_def hooked_config new_Configuration_def key_only_def
      nullish_def cb_throws_def cb_tag_def cb_veto_def cb_void_def veto_def sample_notice_def
      createNotice_def no_options_def)

theorem callbacks_in_order_witness:
  "runBeforeNotifyCallbacks hooked_sdk sample_notice =
     (False, sample_notice\<lparr>tags := [''seen'']\<rparr>,
      [logWarn ''beforeNotify callback failed: Error: broken''],
      [Threw ''Error: broken'', Returned (Some True), veto]) \<and>
   veto \<in> set (outcomes [cb_throws, cb_tag, cb_veto, cb_void] sample_notice) \<and>
   client (callbacks_then_queue sample_env hooked_sdk (new_Client sample_config) sample_notice) =
     client hooked_sdk"
  using callbacks_in_order [OF hooked_config hooked_run, of sample_env "new_Client sample_config"]
    hooked_run
  by (simp add: new_Configuration_def key_only_def nullish_def cb_throws_def cb_tag_def
      cb_veto_def cb_void_def veto_def)


section \<open>The ignore-list at the entry points\<close>

lemma configured_config: "config configured_sdk = Some sample_config"
  by (simp add: configured_sdk_def configure_def Let_def isValid_def new_Configuration_def
      key_only_def nullish_def sample_env_def DEFAULT_ENDPOINT_def start_def initial_sdk_def
      log_def sample_config_def)

lemma configured_client: "client configured_sdk = Some (new_Client sample_config)"
  by (simp add: configured_sdk_def configure_def Let_def isValid_def new_Configuration_def
      key_only_def nullish_def sample_env_def DEFAULT_ENDPOINT_def start_def initial_sdk_def
      log_def sample_config_def)

lemma configured_rest:
  "started configured_sdk \<and> globalContext configured_sdk = [] \<and>
   globalUser configured_sdk = [] \<and> sanitizeFilter configured_sdk = Some (redact (filterKeys sample_config))"
  by (simp add: configured_sdk_def configure_def Let_def isValid_def new_Configuration_def
      key_only_def nullish_def sample_env_def DEFAULT_ENDPOINT_def start_def initial_sdk_def
      log_def sample_config_def)

lemma sample_config_fields:
  "apiKey sample_config = ''test-key'' \<and> endpoint sample_config = ''https://app.checkend.io'' \<and>
   environment sample_config = ''production'' \<and> private_enabled sample_config = None \<and>
   beforeNotify sample_config = [] \<and> debug sample_config = False \<and>
   useSendBeacon sample_config = True \<and> maxQueueSize sample_config = 100"
  by (simp add: sample_config_def new_Configuration_def key_only_def nullish_def
      DEFAULT_ENDPOINT_def detectEnvironment_def startsWith_def)

lemma configured_shouldNotify: "shouldNotify configured_sdk"
  by (simp add: shouldNotify_def configured_config configured_client configured_rest
      isValid_def enabled_def isProductionOrStaging_def sample_config_fields)

lemma noisy_ignored:
  "shouldIgnore sample_config (or_default (err_name noisy_error) ''Error'')
     (or_default (err_message noisy_error) ''Unknown error'')"
  by (simp add: shouldIgnore_def sample_config_def new_Configuration_def
      DEFAULT_IGNORED_EXCEPTIONS_def noisy_error_def or_default_def)

text \<open>\<open>notify\<close> consults the ignore-list before anything else is done with the error.\<close>

lemma notify_ignored:
  assumes "shouldNotify s" "config s = Some c"
    "shouldIgnore c (or_default (err_name er) ''Error'') (or_default (err_message er) ''Unknown error'')"
  shows "client (notify e s er opts) = client s"
  using assms
  by (auto simp: notify_def shouldNotify_def log_def Let_def split: option.splits)

text \<open>
  C2, at the failing input: the module is configured with a key, in production,
  and the error carries a message of the built-in ignore-list. \<open>shouldIgnore\<close>
  answers true and \<open>notify\<close> leaves the client as it is, but \<open>notifySync\<close>
  transmits the notice.
\<close>

theorem notifySync_sends_ignored:
  "shouldNotify configured_sdk \<and>
   config configured_sdk = Some sample_config \<and>
   shouldIgnore sample_config ''Error'' ''ResizeObserver loop limit exceeded'' \<and>
   client (notify sample_env configured_sdk noisy_error no_notify_options) =
     Some (new_Client sample_config) \<and>
   map_option (\<lambda>cl. map (\<lambda>t. ep_message (p_error (payload_of t))) (wire cl))
     (client (fst (notifySync sample_env configured_sdk noisy_error no_notify_options
        (FetchResolved created_response)))) =
     Some [''ResizeObserver loop limit exceeded'']"
proof -
  have a: "shouldIgnore sample_config ''Error'' ''ResizeObserver loop limit exceeded''"
    using noisy_ignored by (simp add: noisy_error_def or_default_def)
  have b: "client (notify sample_env configured_sdk noisy_error no_notify_options) =
     Some (new_Client sample_config)"
    using notify_ignored [OF configured_shouldNotify configured_config noisy_ignored]
    by (simp add: configured_client)
  have c: "map_option (\<lambda>cl. map (\<lambda>t. ep_message (p_error (payload_of t))) (wire cl))
     (client (fst (notifySync sample_env configured_sdk noisy_error no_notify_options
        (FetchResolved created_response)))) =
     Some [''ResizeObserver loop limit exceeded'']"
    by (simp add: notifySync_def configured_shouldNotify configured_config configured_client
        Let_def runBeforeNotifyCallbacks_def sample_config_fields sendNotice_def
        trySendBeacon_def sample_env_def new_Client_def client_log_def toPayload_def
        createNotice_def noisy_error_def or_default_def truncateMessage_def
        MAX_MESSAGE_LENGTH_def split: prod.split)
  from a b c configured_shouldNotify configured_config show ?thesis by blast
qed


section \<open>The enabled state\<close>

lemma enabled_unset:
  "private_enabled c = None \<Longrightarrow>
     enabled c \<longleftrightarrow> environment c = ''production'' \<or> environment c = ''staging''"
  by (auto simp: enabled_def isProductionOrStaging_def)

lemma not_enabled_silent:
  assumes "config s = Some c" "\<not> enabled c"
  shows "notify e s er opts = s"
    and "notifySync e s er opts outcome = (s, Inr None)"
    and "handleUnhandledError e s m src ln cl err = s"
    and "handleUnhandledRejection e s reason = s"
proof -
  from assms have n: "\<not> shouldNotify s"
    by (simp add: shouldNotify_def split: option.split)
  from n show "notify e s er opts = s" by (simp add: notify_def)
  from n show "notifySync e s er opts outcome = (s, Inr None)" by (simp add: notifySync_def)
  from n show "handleUnhandledError e s m src ln cl err = s"
    by (simp add: handleUnhandledError_def)
  from n show "handleUnhandledRejection e s reason = s"
    by (simp add: handleUnhandledRejection_def)
qed

text \<open>
  C9. A configuration built without the option \<open>enabled\<close> is enabled exactly when
  its environment is \<open>production\<close> or \<open>staging\<close>. With such a configuration in
  any other environment, \<open>notify\<close>, \<open>notifySync\<close> and the two handlers of
  unhandled signals return with the state of the module, client included,
  unchanged, and \<open>notifySync\<close> resolves to \<open>null\<close>: nothing is queued or
  transmitted. The environment detected on the host \<open>localhost\<close> is
  \<open>development\<close>.
\<close>

theorem enabled_by_environment:
  "(co_enabled options = None \<longrightarrow>
      (enabled (new_Configuration w options) \<longleftrightarrow>
         environment (new_Configuration w options) = ''production'' \<or>
         environment (new_Configuration w options) = ''staging'')) \<and>
   (config s = Some c \<and> private_enabled c = None \<and>
    environment c \<noteq> ''production'' \<and> environment c \<noteq> ''staging'' \<longrightarrow>
      notify e s er opts = s \<and>
      notifySync e s er opts outcome = (s, Inr None) \<and>
      handleUnhandledError e s m src ln cl err = s \<and>
      handleUnhandledRejection e s reason = s) \<and>
   (co_environment options = None \<longrightarrow>
      environment (new_Configuration (Some ''localhost'') options) = ''development'')"
proof (intro conjI impI)
  assume "co_enabled options = None"
  then have "private_enabled (new_Configuration w options) = None"
    by (simp add: new_Configuration_def)
  then show "enabled (new_Configuration w options) \<longleftrightarrow>
         environment (new_Configuration w options) = ''production'' \<or>
         environment (new_Configuration w options) = ''staging''"
    by (rule enabled_unset)
next
  assume "co_environment options = None"
  then show "environment (new_Configuration (Some ''localhost'') options) = ''development''"
    by (simp add: new_Configuration_def nullish_def detectEnvironment_def)
next
  assume a: "config s = Some c \<and> private_enabled c = None \<and>
    environment c \<noteq> ''production'' \<and> environment c \<noteq> ''staging''"
  then have ne: "\<not> enabled c" by (simp add: enabled_unset)
  from a have cs: "config s = Some c" by simp
  show "notify e s er opts = s" by (rule not_enabled_silent(1) [OF cs ne])
  show "notifySync e s er opts outcome = (s, Inr None)" by (rule not_enabled_silent(2) [OF cs ne])
  show "handleUnhandledError e s m src ln cl err = s" by (rule not_enabled_silent(3) [OF cs ne])
  show "handleUnhandledRejection e s reason = s" by (rule not_enabled_silent(4) [OF cs ne])
qed

lemma local_config:
  "config local_sdk = Some (new_Configuration (Some ''localhost'') (key_only ''test-key'')) \<and>
   client local_sdk =
     Some (new_Client (new_Configuration (Some ''localhost'') (key_only ''test-key''))) \<and>
   started local_sdk"
  by (simp add: local_sdk_def local_env_def configure_def Let_def isValid_def
      new_Configuration_def key_only_def nullish_def sample_env_def DEFAULT_ENDPOINT_def
      start_def initial_sdk_def log_def)

lemma local_fields:
  "co_enabled (key_only ''test-key'') = None \<and> co_environment (key_only ''test-key'') = None \<and>
   private_enabled (new_Configuration (Some ''localhost'') (key_only ''test-key'')) = None \<and>
   environment (new_Configuration (Some ''localhost'') (key_only ''test-key'')) = ''development'' \<and>
   isValid (new_Configuration (Some ''localhost'') (key_only ''test-key''))"
  by (simp add: new_Configuration_def key_only_def nullish_def detectEnvironment_def
      isValid_def DEFAULT_ENDPOINT_def)

theorem enabled_by_environment_witness:
  "isValid (new_Configuration (Some ''localhost'') (key_only ''test-key'')) \<and>
   \<not> enabled (new_Configuration (Some ''localhost'') (key_only ''test-key'')) \<and>
   enabled (new_Configuration (Some ''example.com'') (key_only ''test-key'')) \<and>
   notify local_env local_sdk sample_error no_notify_options = local_sdk \<and>
   notifySync local_env local_sdk sample_error no_notify_options
     (FetchResolved created_response) = (local_sdk, Inr None) \<and>
   handleUnhandledError local_env local_sdk ''boom'' (Some ''app.js'') (Some 1) (Some 2) None =
     local_sdk \<and>
   handleUnhandledRejection local_env local_sdk (ReasonString ''boom'') = local_sdk"
  using enabled_by_environment
      [where options = "key_only ''test-key''" and w = "Some ''localhost''" and s = local_sdk
         and c = "new_Configuration (Some ''localhost'') (key_only ''test-key'')"
         and e = local_env and er = sample_error and opts = no_notify_options
         and outcome = "FetchResolved created_response" and m = "''boom''"
         and src = "Some ''app.js''" and ln = "Some 1" and cl = "Some 2" and err = None
         and reason = "ReasonString ''boom''"]
    enabled_by_environment
      [where options = "key_only ''test-key''" and w = "Some ''example.com''"]
    local_config local_fields sample_config_fields
  by (simp add: sample_config_def)


section \<open>Progress and end of a drain\<close>

text \<open>
  When the request in flight settles and \<open>sendViaFetch\<close> resolves, the active
  drain takes the next queued payload, also one queued while it was waiting, or
  ends with the queue empty.
\<close>

lemma drain_progress:
  assumes "drain_inv s" "inflight s = [x]" "snd (snd (sendViaFetch_settle outcome)) = Inr v"
  shows "(queue s = [] \<longrightarrow>
            \<not> sending (resume 0 outcome s) \<and> inflight (resume 0 outcome s) = [] \<and>
            drained (resume 0 outcome s) = drained s) \<and>
         (queue s = p # rest \<longrightarrow>
            sending (resume 0 outcome s) \<and> inflight (resume 0 outcome s) = [p] \<and>
            drained (resume 0 outcome s) = drained s @ [p] \<and> queue (resume 0 outcome s) = rest)"
  using assms by (auto simp: resume_def Let_def drain_loop_def drain_inv_def)

text \<open>
  When \<open>sendViaFetch\<close> rejects, the run of \<open>processQueue\<close> ends with
  \<open>sending\<close> set: what is queued stays queued, and later calls of
  \<open>processQueue\<close> return at once.
\<close>

lemma drain_ends_on_rejection:
  assumes "inflight s = [x]" "sending s" "snd (snd (sendViaFetch_settle outcome)) = Inl ex"
  shows "sending (resume 0 outcome s) \<and> inflight (resume 0 outcome s) = [] \<and>
         queue (resume 0 outcome s) = queue s \<and> drained (resume 0 outcome s) = drained s \<and>
         processQueue (resume 0 outcome s) = resume 0 outcome s"
  using assms by (simp add: resume_def Let_def processQueue_def)

lemma stuck_sample:
  "sending (run sample_env (new_Client sample_config)
      [QueueNotice (notice_of ''first''), QueueNotice (notice_of ''second''),
       Settle 0 (FetchResolved unreadable_201), Flush]) \<and>
   inflight (run sample_env (new_Client sample_config)
      [QueueNotice (notice_of ''first''), QueueNotice (notice_of ''second''),
       Settle 0 (FetchResolved unreadable_201), Flush]) = [] \<and>
   queue (run sample_env (new_Client sample_config)
      [QueueNotice (notice_of ''first''), QueueNotice (notice_of ''second''),
       Settle 0 (FetchResolved unreadable_201), Flush]) =
     [toPayload sample_env (notice_of ''second'')]"
  by (simp add: client_eval sample_debug unreadable_201_def)

text \<open>
  Once \<open>sending\<close> is set with no request in flight, no turn clears it: nothing
  more is drained, and what is queued stays at the head of the queue.
\<close>

lemma step_stuck:
  assumes "sending s" "inflight s = []"
  shows "sending (step e s ev) \<and> inflight (step e s ev) = [] \<and>
         drained (step e s ev) = drained s \<and>
         take (length (queue s)) (queue (step e s ev)) = queue s"
  using assms
  by (cases ev) (simp_all add: queueNotice_def processQueue_def resume_def)

lemma run_stuck:
  "sending s \<Longrightarrow> inflight s = [] \<Longrightarrow>
     sending (run e s evs) \<and> inflight (run e s evs) = [] \<and>
     drained (run e s evs) = drained s \<and>
     take (length (queue s)) (queue (run e s evs)) = queue s"
proof (induction evs arbitrary: s)
  case Nil
  then show ?case by simp
next
  case (Cons ev evs)
  note st = step_stuck [OF Cons.prems, of e ev]
  from st have a: "sending (step e s ev)" "inflight (step e s ev) = []" by simp_all
  note ih = Cons.IH [OF a]
  have "take (length (queue s)) (queue (run e (step e s ev) evs)) =
        take (length (queue s)) (take (length (queue (step e s ev))) (queue (run e (step e s ev) evs)))"
    using st by (metis length_take min.absorb2 nat_le_linear take_all take_take min.commute min_def)
  with ih st show ?case by simp
qed

text \<open>
  C3, at the failing input: two notices are queued and the request for the first
  is answered with status 201 and a body that does not parse. The run of
  \<open>processQueue\<close> ends there with \<open>sending\<close> set. The second notice, and a third
  queued later, are accepted, and \<open>flush\<close> is called twice; yet only the first
  payload is ever handed to the transport: the wire holds its request alone, no
  request is in flight, and the two accepted payloads stay in the queue. By
  \<open>run_stuck\<close> this is so after every further sequence of turns.
\<close>

theorem accepted_never_sent:
  "accepted sample_env (new_Client sample_config) stuck_run =
     [toPayload sample_env (notice_of ''first''), toPayload sample_env (notice_of ''second''),
      toPayload sample_env (notice_of ''third'')] \<and>
   drained (run sample_env (new_Client sample_config) stuck_run) =
     [toPayload sample_env (notice_of ''first'')] \<and>
   wire (run sample_env (new_Client sample_config) stuck_run) =
     [fetch_request sample_config (toPayload sample_env (notice_of ''first''))] \<and>
   queue (run sample_env (new_Client sample_config) stuck_run) =
     [toPayload sample_env (notice_of ''second''), toPayload sample_env (notice_of ''third'')] \<and>
   inflight (run sample_env (new_Client sample_config) stuck_run) = [] \<and>
   sending (run sample_env (new_Client sample_config) stuck_run)"
  by (simp add: stuck_run_def client_eval sample_debug unreadable_201_def)


section \<open>Built-in ignore entries at the entry points\<close>

lemma default_listed:
  assumes "m = ''ResizeObserver loop limit exceeded'' \<or>
    m = ''ResizeObserver loop completed with undelivered notifications'' \<or>
    m = ''Script error'' \<or> m = ''Script error.''"
  shows "shouldIgnore (new_Configuration w options) cls m"
proof -
  from assms have "list_ex (pattern_matches cls m) DEFAULT_IGNORED_EXCEPTIONS"
    by (auto simp: DEFAULT_IGNORED_EXCEPTIONS_def script_error_re_def)
  then show ?thesis by (rule shouldIgnore_default)
qed

text \<open>
  \<open>notify\<close> and the two handlers of unhandled signals leave the client alone
  when the message of the error is one the built-in entries name.
\<close>

lemma default_ignored_by_siblings:
  assumes c: "config s = Some (new_Configuration w options)"
    and m: "m = ''ResizeObserver loop limit exceeded'' \<or>
      m = ''ResizeObserver loop completed with undelivered notifications'' \<or>
      m = ''Script error'' \<or> m = ''Script error.''"
    and er: "err_message er = m"
  shows "client (notify e s er opts) = client s"
    and "handleUnhandledError e s m src ln cl err = s"
    and "handleUnhandledRejection e s (ReasonError er) = s"
    and "handleUnhandledRejection e s (ReasonString m) = s"
proof -
  note ig = default_listed [OF m, of w options]
  from m have ne: "or_default m ''Unknown error'' = m"
    by (auto simp: or_default_def)
  show "client (notify e s er opts) = client s"
    using c ig ne er
    by (auto simp: notify_def shouldNotify_def log_def Let_def split: option.splits)
  show "handleUnhandledError e s m src ln cl err = s"
    using c ig by (auto simp: handleUnhandledError_def shouldNotify_def split: option.splits)
  show "handleUnhandledRejection e s (ReasonError er) = s"
    using c ig er
    by (auto simp: handleUnhandledRejection_def shouldNotify_def Let_def split: option.splits)
  show "handleUnhandledRejection e s (ReasonString m) = s"
    using c ig
    by (auto simp: handleUnhandledRejection_def shouldNotify_def Let_def split: option.splits)
qed

lemma custom_config:
  "config custom_sdk = Some (new_Configuration (Some ''example.com'') custom_options) \<and>
   client custom_sdk = Some (new_Client (new_Configuration (Some ''example.com'') custom_options)) \<and>
   started custom_sdk \<and> globalContext custom_sdk = [] \<and> globalUser custom_sdk = []"
  by (simp add: custom_sdk_def plain_env_def custom_options_def configure_def Let_def isValid_def
      new_Configuration_def key_only_def nullish_def sample_env_def DEFAULT_ENDPOINT_def
      start_def initial_sdk_def log_def)

lemma custom_fields:
  "apiKey (new_Configuration (Some ''example.com'') custom_options) = ''test-key'' \<and>
   endpoint (new_Configuration (Some ''example.com'') custom_options) = ''https://app.checkend.io'' \<and>
   environment (new_Configuration (Some ''example.com'') custom_options) = ''production'' \<and>
   private_enabled (new_Configuration (Some ''example.com'') custom_options) = None \<and>
   beforeNotify (new_Configuration (Some ''example.com'') custom_options) = [] \<and>
   debug (new_Configuration (Some ''example.com'') custom_options) = False \<and>
   useSendBeacon (new_Configuration (Some ''example.com'') custom_options) = True"
  by (simp add: custom_options_def new_Configuration_def key_only_def nullish_def
      DEFAULT_ENDPOINT_def detectEnvironment_def startsWith_def)

lemma custom_shouldNotify: "shouldNotify custom_sdk"
  by (simp add: shouldNotify_def custom_config isValid_def enabled_def
      isProductionOrStaging_def custom_fields)

text \<open>
  C10, at the failing input: the module is configured in production with the key
  and one ignore entry of the user's, and the error carries the message
  \<open>Script error.\<close>, which the built-in pattern accepts. The configuration has the
  built-in entries and \<open>shouldIgnore\<close> answers true; \<open>notify\<close> transmits
  nothing; but \<open>notifySync\<close> does not suppress the error: its payload goes on
  the wire and the promise resolves to the acknowledgment of the server.
\<close>

theorem default_ignored_transmitted:
  "config custom_sdk = Some (new_Configuration (Some ''example.com'') custom_options) \<and>
   shouldIgnore (new_Configuration (Some ''example.com'') custom_options)
     ''Error'' ''Script error.'' \<and>
   messages_on_wire (notify plain_env custom_sdk script_error no_notify_options) = [] \<and>
   messages_on_wire (fst (notifySync plain_env custom_sdk script_error no_notify_options
       (FetchResolved created_response))) = [''Script error.''] \<and>
   snd (notifySync plain_env custom_sdk script_error no_notify_options
       (FetchResolved created_response)) =
     Inr (Some (JObj [(''id'', JNum 1), (''problem_id'', JNum 2)]))"
proof -
  have ig: "shouldIgnore (new_Configuration (Some ''example.com'') custom_options)
     ''Error'' ''Script error.''"
    by (rule default_listed) simp
  have n: "client (notify plain_env custom_sdk script_error no_notify_options) = client custom_sdk"
    by (rule default_ignored_by_siblings(1) [where m = "''Script error.''"])
      (simp_all add: custom_config script_error_def)
  have a: "messages_on_wire (notify plain_env custom_sdk script_error no_notify_options) = []"
    by (simp add: messages_on_wire_def n custom_config new_Client_def)
  have b: "notifySync plain_env custom_sdk script_error no_notify_options
       (FetchResolved created_response) =
     (custom_sdk\<lparr>client := Some (fst (sendNotice plain_env
         (new_Client (new_Configuration (Some ''example.com'') custom_options))
         (createNotice (clock plain_env) script_error
            \<lparr> opt_context = Some (sanitize custom_sdk []), opt_request = Some (sanitize custom_sdk (captureRequestInfo plain_env)),
              opt_user = Some (sanitize custom_sdk []), opt_fingerprint = None, opt_tags = None,
              opt_environment = Some ''production'' \<rparr>)
         (FetchResolved created_response)))\<rparr>,
      snd (sendNotice plain_env
         (new_Client (new_Configuration (Some ''example.com'') custom_options))
         (createNotice (clock plain_env) script_error
            \<lparr> opt_context = Some (sanitize custom_sdk []), opt_request = Some (sanitize custom_sdk (captureRequestInfo plain_env)),
              opt_user = Some (sanitize custom_sdk []), opt_fingerprint = None, opt_tags = None,
              opt_environment = Some ''production'' \<rparr>)
         (FetchResolved created_response)))"
    by (simp add: notifySync_def custom_shouldNotify custom_config Let_def
        runBeforeNotifyCallbacks_def custom_fields no_notify_options_def nullish_def
        split: prod.split)
  have c: "messages_on_wire (fst (notifySync plain_env custom_sdk script_error no_notify_options
       (FetchResolved created_response))) = [''Script error.'']"
    unfolding b
    by (simp add: messages_on_wire_def sendNotice_def trySendBeacon_def plain_env_def
        sample_env_def Let_def custom_fields new_Client_def fetch_request_def toPayload_def
        createNotice_def script_error_def or_default_def truncateMessage_def
        MAX_MESSAGE_LENGTH_def)
  have d: "snd (notifySync plain_env custom_sdk script_error no_notify_options
       (FetchResolved created_response)) =
     Inr (Some (JObj [(''id'', JNum 1), (''problem_id'', JNum 2)]))"
    unfolding b
    by (simp add: sendNotice_def trySendBeacon_def plain_env_def sample_env_def Let_def
        custom_fields new_Client_def sendViaFetch_def sendViaFetch_settle_def
        handleResponse_def created_response_def property_text_def)
  from ig a c d custom_config show ?thesis by simp
qed

end
